theory Spec2Isabelle
  imports Complex_Main "HOL-Library.Word"
begin

unbundle bit_operations_syntax

section \<open>Numbers and their decimal rendering\<close>

text \<open>
  JavaScript numbers are IEEE doubles. They are modelled by the reals: every coordinate,
  distance and cost below is a \<^typ>\<open>real\<close>, the value \<open>Infinity\<close> of the score tables is a
  constructor of its own, and \<open>NaN\<close> does not occur. Rounding error is therefore outside the
  model; the shape of the graph, the control flow of the search and the comparisons between
  exactly representable costs are inside it.
\<close>

type_synonym coord = "real \<times> real"

fun digits :: "nat \<Rightarrow> string" where
  "digits n = (if n < 10 then [char_of (48 + n)] else digits (n div 10) @ [char_of (48 + n mod 10)])"

declare digits.simps [simp del]

text \<open>
  \<open>Number.prototype.toFixed(f)\<close> for a finite number below \<open>10^21\<close> in magnitude: the sign,
  then the integer \<open>n\<close> nearest to \<open>|x| * 10^f\<close> (the larger one on a tie), written with at
  least \<open>f + 1\<close> digits and a point before the last \<open>f\<close>.
\<close>

definition toFixed :: "nat \<Rightarrow> real \<Rightarrow> string" where
  "toFixed f x =
     (let s = (if x < 0 then ''-'' else '''');
          n = nat \<lfloor>\<bar>x\<bar> * 10 ^ f + 1 / 2\<rfloor>;
          ds = digits n;
          z = (if length ds \<le> f then replicate (f + 1 - length ds) (CHR ''0'') @ ds else ds)
      in if f = 0 then s @ ds
         else s @ take (length z - f) z @ ''.'' @ drop (length z - f) z)"

section \<open>Geometry kernel: haversine distance\<close>

text \<open>\<open>Math.atan2(y, x)\<close>, by the quadrant of \<open>(x, y)\<close>.\<close>

definition atan2 :: "real \<Rightarrow> real \<Rightarrow> real" where
  "atan2 y x =
     (if 0 < x then arctan (y / x)
      else if x < 0 then (if 0 \<le> y then arctan (y / x) + pi else arctan (y / x) - pi)
      else if 0 < y then pi / 2
      else if y < 0 then - (pi / 2)
      else 0)"

definition haversineDistance :: "real \<Rightarrow> real \<Rightarrow> real \<Rightarrow> real \<Rightarrow> real" where
  "haversineDistance lat1 lon1 lat2 lon2 =
     (let R = 6371000;
          dLat = ((lat2 - lat1) * pi) / 180;
          dLon = ((lon2 - lon1) * pi) / 180;
          a = sin (dLat / 2) * sin (dLat / 2) +
              cos ((lat1 * pi) / 180) * cos ((lat2 * pi) / 180) * sin (dLon / 2) * sin (dLon / 2)
      in R * 2 * atan2 (sqrt a) (sqrt (1 - a)))"

section \<open>Graph builder\<close>

datatype RoadStatus = passable | restricted | blocked

record RoadSegment =
  seg_id :: string
  coordinates :: "coord list"
  properties :: "(string \<times> string) list"
  status :: RoadStatus

record GraphEdge =
  to :: nat
  cost :: real

record GraphNode =
  node_id :: nat
  lat :: real
  lng :: real
  edges :: "GraphEdge list"

record Graph =
  nodes :: "GraphNode list"

text \<open>The key of \<open>getOrCreateNode\<close>: both coordinates with nine decimals, comma separated.\<close>

definition nodeKey :: "real \<Rightarrow> real \<Rightarrow> string" where
  "nodeKey la lo = toFixed 9 la @ '','' @ toFixed 9 lo"

text \<open>
  The builder's mutable state: the node array and \<open>nodeIndexMap\<close>. \<open>getOrCreateNode\<close>
  returns the state with the index found or created.
\<close>

type_synonym builder = "GraphNode list \<times> (string \<rightharpoonup> nat)"

definition getOrCreateNode :: "builder \<Rightarrow> real \<Rightarrow> real \<Rightarrow> builder \<times> nat" where
  "getOrCreateNode st la lo =
     (let ns = fst st; m = snd st; key = nodeKey la lo
      in case m key of
           None \<Rightarrow>
             (let node = \<lparr>node_id = length ns, lat = la, lng = lo, edges = []\<rparr>
              in ((ns @ [node], m(key \<mapsto> node_id node)), node_id node))
         | Some i \<Rightarrow> (st, i))"

text \<open>\<open>nodes[i].edges.push(e)\<close>; the indices pushed to are always those just looked up.\<close>

definition pushEdge :: "GraphNode list \<Rightarrow> nat \<Rightarrow> GraphEdge \<Rightarrow> GraphNode list" where
  "pushEdge ns i e = ns[i := (ns ! i)\<lparr>edges := edges (ns ! i) @ [e]\<rparr>]"

text \<open>One iteration of the inner loop, for the coordinate pair at positions \<open>i\<close> and \<open>i + 1\<close>.\<close>

definition addPair :: "real \<Rightarrow> builder \<Rightarrow> coord \<Rightarrow> coord \<Rightarrow> builder" where
  "addPair baseCost st p q =
     (let (st1, idx1) = getOrCreateNode st (fst p) (snd p);
          (st2, idx2) = getOrCreateNode st1 (fst q) (snd q);
          dist = haversineDistance (fst p) (snd p) (fst q) (snd q) * baseCost;
          ns1 = pushEdge (fst st2) idx1 \<lparr>to = idx2, cost = dist\<rparr>;
          ns2 = pushEdge ns1 idx2 \<lparr>to = idx1, cost = dist\<rparr>
      in (ns2, snd st2))"

fun addCoords :: "real \<Rightarrow> builder \<Rightarrow> coord list \<Rightarrow> builder" where
  "addCoords baseCost st (p # q # rest) = addCoords baseCost (addPair baseCost st p q) (q # rest)"
| "addCoords baseCost st _ = st"

definition baseCostOf :: "bool \<Rightarrow> RoadStatus \<Rightarrow> real" where
  "baseCostOf tallVehicleMode s =
     (if tallVehicleMode then (if s = restricted then 0.5 else 1)
      else (if s = restricted then 3 else 1))"

definition addSegment :: "bool \<Rightarrow> builder \<Rightarrow> RoadSegment \<Rightarrow> builder" where
  "addSegment tallVehicleMode st seg =
     (if status seg = blocked then st
      else addCoords (baseCostOf tallVehicleMode (status seg)) st (coordinates seg))"

definition buildState :: "RoadSegment list \<Rightarrow> bool \<Rightarrow> builder" where
  "buildState roadSegments tallVehicleMode =
     foldl (addSegment tallVehicleMode) ([], Map.empty) roadSegments"

definition buildGraph :: "RoadSegment list \<Rightarrow> bool \<Rightarrow> Graph" where
  "buildGraph roadSegments tallVehicleMode =
     \<lparr>nodes = fst (buildState roadSegments tallVehicleMode)\<rparr>"

text \<open>
  A decoder for the rendering, used to show that the node key determines, and is determined by,
  the sign and the rounded magnitude of each coordinate.
\<close>

definition isDigit :: "char \<Rightarrow> bool" where
  "isDigit c \<longleftrightarrow> 48 \<le> (of_char c :: nat) \<and> (of_char c :: nat) \<le> 57"

fun digitsVal :: "nat \<Rightarrow> string \<Rightarrow> nat" where
  "digitsVal acc [] = acc"
| "digitsVal acc (c # cs) = digitsVal (10 * acc + (of_char c - 48)) cs"

definition fixedVal :: "nat \<Rightarrow> real \<Rightarrow> nat" where
  "fixedVal f x = nat \<lfloor>\<bar>x\<bar> * 10 ^ f + 1 / 2\<rfloor>"

section \<open>Invariants of the graph builder\<close>

definition keyOf :: "GraphNode \<Rightarrow> string" where
  "keyOf n = nodeKey (lat n) (lng n)"

text \<open>
  The builder invariant: the index map holds exactly the keys of the stored nodes, every node
  carries its own position as id, and every edge points into the array and has its mirror image
  at its target.
\<close>

definition binv :: "builder \<Rightarrow> bool" where
  "binv st \<longleftrightarrow>
     (\<forall>k i. snd st k = Some i \<longleftrightarrow> i < length (fst st) \<and> keyOf (fst st ! i) = k) \<and>
     (\<forall>i < length (fst st). node_id (fst st ! i) = i) \<and>
     (\<forall>i < length (fst st). \<forall>e \<in> set (edges (fst st ! i)).
         to e < length (fst st) \<and> \<lparr>to = i, cost = cost e\<rparr> \<in> set (edges (fst st ! to e)))"

text \<open>The builder only grows: nodes keep their position and coordinates, edge lists only gain.\<close>

definition bext :: "builder \<Rightarrow> builder \<Rightarrow> bool" where
  "bext st st' \<longleftrightarrow>
     length (fst st) \<le> length (fst st') \<and>
     (\<forall>i < length (fst st). keyOf (fst st' ! i) = keyOf (fst st ! i) \<and>
        set (edges (fst st ! i)) \<subseteq> set (edges (fst st' ! i)))"

text \<open>
  Where an edge comes from: a consecutive coordinate pair of a segment that is not blocked, in
  either direction, with the cost the pair was given.
\<close>

definition pairCost :: "bool \<Rightarrow> RoadSegment \<Rightarrow> nat \<Rightarrow> real" where
  "pairCost tall seg i =
     haversineDistance (fst (coordinates seg ! i)) (snd (coordinates seg ! i))
       (fst (coordinates seg ! Suc i)) (snd (coordinates seg ! Suc i)) *
     baseCostOf tall (status seg)"

definition coordKey :: "coord \<Rightarrow> string" where
  "coordKey p = nodeKey (fst p) (snd p)"

definition edgeFrom :: "bool \<Rightarrow> RoadSegment list \<Rightarrow> string \<Rightarrow> string \<Rightarrow> real \<Rightarrow> bool" where
  "edgeFrom tall segs k1 k2 c \<longleftrightarrow>
     (\<exists>seg \<in> set segs. status seg \<noteq> blocked \<and>
        (\<exists>i. Suc i < length (coordinates seg) \<and> c = pairCost tall seg i \<and>
           (k1 = coordKey (coordinates seg ! i) \<and> k2 = coordKey (coordinates seg ! Suc i) \<or>
            k1 = coordKey (coordinates seg ! Suc i) \<and> k2 = coordKey (coordinates seg ! i))))"

definition pinv :: "(string \<Rightarrow> string \<Rightarrow> real \<Rightarrow> bool) \<Rightarrow> builder \<Rightarrow> bool" where
  "pinv P st \<longleftrightarrow>
     (\<forall>i < length (fst st). \<forall>e \<in> set (edges (fst st ! i)).
        P (keyOf (fst st ! i)) (keyOf (fst st ! to e)) (cost e))"

text \<open>An undirected edge between the nodes of two keys, present in the builder.\<close>

definition hasPair :: "builder \<Rightarrow> string \<Rightarrow> string \<Rightarrow> real \<Rightarrow> bool" where
  "hasPair st k1 k2 c \<longleftrightarrow>
     (\<exists>u v. u < length (fst st) \<and> v < length (fst st) \<and>
        keyOf (fst st ! u) = k1 \<and> keyOf (fst st ! v) = k2 \<and>
        \<lparr>to = v, cost = c\<rparr> \<in> set (edges (fst st ! u)) \<and>
        \<lparr>to = u, cost = c\<rparr> \<in> set (edges (fst st ! v)))"

definition hav :: "coord \<Rightarrow> coord \<Rightarrow> real" where
  "hav p q = haversineDistance (fst p) (snd p) (fst q) (snd q)"

section \<open>Paths in a graph\<close>

text \<open>
  A path from \<open>u\<close> to \<open>v\<close> is a list of edges, each taken from the edge list of the node the
  previous one leads to; its cost is the sum of the edge costs.
\<close>

fun isPath :: "Graph \<Rightarrow> nat \<Rightarrow> GraphEdge list \<Rightarrow> nat \<Rightarrow> bool" where
  "isPath g u [] v = (u = v \<and> u < length (nodes g))"
| "isPath g u (e # es) v = (u < length (nodes g) \<and> e \<in> set (edges (nodes g ! u)) \<and> isPath g (to e) es v)"

definition pathCost :: "GraphEdge list \<Rightarrow> real" where
  "pathCost es = sum_list (map cost es)"

text \<open>The same edges walked backwards, starting from the far end.\<close>

fun revPath :: "nat \<Rightarrow> GraphEdge list \<Rightarrow> GraphEdge list" where
  "revPath u [] = []"
| "revPath u (e # es) = revPath (to e) es @ [\<lparr>to = u, cost = cost e\<rparr>]"

text \<open>The nodes a path visits, both ends included.\<close>

fun pathNodes :: "nat \<Rightarrow> GraphEdge list \<Rightarrow> nat list" where
  "pathNodes u [] = [u]"
| "pathNodes u (e # es) = u # pathNodes (to e) es"

section \<open>Nearest node and A* search\<close>

text \<open>
  A score is a finite number or \<open>Infinity\<close>. \<open>scoreLess\<close> is the comparison \<open><\<close> of the
  source, \<open>scoreAdd\<close> its addition of an edge cost.
\<close>

datatype score = Fin real | Infinity

fun scoreLess :: "score \<Rightarrow> score \<Rightarrow> bool" where
  "scoreLess (Fin a) (Fin b) = (a < b)"
| "scoreLess (Fin a) Infinity = True"
| "scoreLess Infinity _ = False"

fun scoreAdd :: "score \<Rightarrow> real \<Rightarrow> score" where
  "scoreAdd (Fin a) c = Fin (a + c)"
| "scoreAdd Infinity c = Infinity"

text \<open>
  \<open>findNearestNode\<close>: a scan over the nodes with their positions, keeping the first strictly
  nearest; the result is \<open>-1\<close> when no node was nearer than \<open>Infinity\<close>.
\<close>

definition nearestStep :: "real \<Rightarrow> real \<Rightarrow> int \<times> score \<Rightarrow> GraphNode \<times> nat \<Rightarrow> int \<times> score" where
  "nearestStep la lo best nd =
     (let d = haversineDistance la lo (lat (fst nd)) (lng (fst nd))
      in if scoreLess (Fin d) (snd best) then (int (snd nd), Fin d) else best)"

definition findNearestNode :: "Graph \<Rightarrow> real \<Rightarrow> real \<Rightarrow> int" where
  "findNearestNode graph la lo =
     fst (foldl (nearestStep la lo) (-1, Infinity) (zip (nodes graph) [0 ..< length (nodes graph)]))"

text \<open>
  The search state: the open set in insertion order (a JavaScript \<open>Set\<close> iterates in insertion
  order), and the three maps. A map lookup of an absent key is \<open>undefined\<close>; every comparison
  with \<open>undefined\<close> or with the \<open>NaN\<close> it turns into under \<open>+\<close> is false.
\<close>

record astar_state =
  openSet :: "nat list"
  cameFrom :: "nat \<rightharpoonup> nat"
  gScore :: "nat \<rightharpoonup> score"
  fScore :: "nat \<rightharpoonup> score"

text \<open>What a call of \<open>astar\<close> does when it comes back: a path, \<open>null\<close>, or a thrown \<open>TypeError\<close>
  (a property read on \<open>undefined\<close>).\<close>

datatype astar_result = Path "nat list" | Null | TypeError

definition heuristic :: "GraphNode \<Rightarrow> GraphNode \<Rightarrow> real" where
  "heuristic a b = haversineDistance (lat a) (lng a) (lat b) (lng b)"

definition setAdd :: "nat \<Rightarrow> nat list \<Rightarrow> nat list" where
  "setAdd x xs = (if x \<in> set xs then xs else xs @ [x])"

text \<open>The \<open>forEach\<close> that picks the open node of least \<open>fScore\<close>; \<open>None\<close> is the initial \<open>-1\<close>.\<close>

definition pickStep :: "(nat \<rightharpoonup> score) \<Rightarrow> nat option \<times> score \<Rightarrow> nat \<Rightarrow> nat option \<times> score" where
  "pickStep fS cur idx =
     (case fS idx of
        Some s \<Rightarrow> if scoreLess s (snd cur) then (Some idx, s) else cur
      | None \<Rightarrow> cur)"

definition pickCurrent :: "(nat \<rightharpoonup> score) \<Rightarrow> nat list \<Rightarrow> nat option" where
  "pickCurrent fS opn = fst (foldl (pickStep fS) (None, Infinity) opn)"

text \<open>The path reconstruction loop; it runs for as long as \<open>cameFrom\<close> has the current node.\<close>

partial_function (option) reconstruct :: "(nat \<rightharpoonup> nat) \<Rightarrow> nat \<Rightarrow> nat list \<Rightarrow> nat list option" where
  "reconstruct cf current path =
     (case cf current of
        None \<Rightarrow> Some path
      | Some prev \<Rightarrow> reconstruct cf prev (prev # path))"

text \<open>
  One edge of the \<open>for\<close> loop over the current node's edges. \<open>None\<close> is the \<open>TypeError\<close> of
  \<open>heuristic\<close> reading \<open>graph.nodes[edge.to].lat\<close> when there is no such node.
\<close>

definition relaxEdge :: "Graph \<Rightarrow> nat \<Rightarrow> nat \<Rightarrow> GraphEdge \<Rightarrow> astar_state \<Rightarrow> astar_state option" where
  "relaxEdge graph goalIdx current edge st =
     (case (gScore st current, gScore st (to edge)) of
        (Some gc, Some gt) \<Rightarrow>
          (let tentativeG = scoreAdd gc (cost edge)
           in if scoreLess tentativeG gt then
                (if to edge < length (nodes graph) then
                   Some (st\<lparr>cameFrom := (cameFrom st)(to edge \<mapsto> current),
                            gScore := (gScore st)(to edge \<mapsto> tentativeG),
                            fScore := (fScore st)(to edge \<mapsto>
                               scoreAdd tentativeG (heuristic (nodes graph ! to edge) (nodes graph ! goalIdx))),
                            openSet := setAdd (to edge) (openSet st)\<rparr>)
                 else None)
              else Some st)
      | _ \<Rightarrow> Some st)"

fun relaxEdges :: "Graph \<Rightarrow> nat \<Rightarrow> nat \<Rightarrow> GraphEdge list \<Rightarrow> astar_state \<Rightarrow> astar_state option" where
  "relaxEdges graph goalIdx current [] st = Some st"
| "relaxEdges graph goalIdx current (edge # rest) st =
     (case relaxEdge graph goalIdx current edge st of
        None \<Rightarrow> None
      | Some st' \<Rightarrow> relaxEdges graph goalIdx current rest st')"

text \<open>
  The main loop. It returns the result together with the state it stopped in, so that the
  internal cost \<open>gScore(goal)\<close> can be spoken about; \<open>astar\<close> below drops the state. The outer
  \<open>option\<close> is \<open>None\<close> when the loop does not stop.
\<close>

partial_function (option) astarLoop :: "Graph \<Rightarrow> nat \<Rightarrow> astar_state \<Rightarrow> (astar_result \<times> astar_state) option" where
  "astarLoop graph goalIdx st =
     (if openSet st = [] then Some (Null, st)
      else case pickCurrent (fScore st) (openSet st) of
             None \<Rightarrow> Some (TypeError, st)
           | Some current \<Rightarrow>
               if current = goalIdx then
                 (case reconstruct (cameFrom st) current [current] of
                    None \<Rightarrow> None
                  | Some path \<Rightarrow> Some (Path path, st))
               else if length (nodes graph) \<le> current then Some (TypeError, st)
               else
                 (case relaxEdges graph goalIdx current (edges (nodes graph ! current))
                         (st\<lparr>openSet := removeAll current (openSet st)\<rparr>) of
                    None \<Rightarrow> Some (TypeError, st)
                  | Some st' \<Rightarrow> astarLoop graph goalIdx st'))"

definition astarInit :: "Graph \<Rightarrow> nat \<Rightarrow> nat \<Rightarrow> astar_state" where
  "astarInit graph startIdx goalIdx =
     (let inf = (\<lambda>k. if k \<in> node_id ` set (nodes graph) then Some Infinity else None)
      in \<lparr>openSet = [startIdx],
          cameFrom = Map.empty,
          gScore = inf(startIdx \<mapsto> Fin 0),
          fScore = inf(startIdx \<mapsto> Fin (heuristic (nodes graph ! startIdx) (nodes graph ! goalIdx)))\<rparr>)"

text \<open>
  \<open>astar\<close> with the state it ends in. The indices are the numbers the caller passes, \<open>-1\<close>
  included; the first \<open>heuristic\<close> call throws unless both are positions of the node array.
\<close>

definition astarSearch :: "Graph \<Rightarrow> int \<Rightarrow> int \<Rightarrow> (astar_result \<times> astar_state) option" where
  "astarSearch graph startIdx goalIdx =
     (if 0 \<le> startIdx \<and> startIdx < int (length (nodes graph)) \<and>
         0 \<le> goalIdx \<and> goalIdx < int (length (nodes graph))
      then astarLoop graph (nat goalIdx) (astarInit graph (nat startIdx) (nat goalIdx))
      else Some (TypeError, astarInit graph (nat startIdx) (nat goalIdx)))"

definition astar :: "Graph \<Rightarrow> int \<Rightarrow> int \<Rightarrow> astar_result option" where
  "astar graph startIdx goalIdx = map_option fst (astarSearch graph startIdx goalIdx)"

text \<open>Route post-processing; \<open>None\<close> is again the \<open>TypeError\<close> of reading a node that is not there.\<close>

definition nodesToLatLng :: "Graph \<Rightarrow> nat list \<Rightarrow> coord list option" where
  "nodesToLatLng graph pathIdxs =
     (if \<forall>idx \<in> set pathIdxs. idx < length (nodes graph)
      then Some (map (\<lambda>idx. (lat (nodes graph ! idx), lng (nodes graph ! idx))) pathIdxs)
      else None)"

fun routeLength :: "Graph \<Rightarrow> nat list \<Rightarrow> real" where
  "routeLength graph (i # j # rest) =
     haversineDistance (lat (nodes graph ! i)) (lng (nodes graph ! i))
       (lat (nodes graph ! j)) (lng (nodes graph ! j)) + routeLength graph (j # rest)"
| "routeLength graph _ = 0"

definition calculateRouteDistance :: "Graph \<Rightarrow> nat list \<Rightarrow> real option" where
  "calculateRouteDistance graph pathIdxs =
     (if length pathIdxs < 2 then Some 0
      else if \<forall>idx \<in> set pathIdxs. idx < length (nodes graph)
      then Some (routeLength graph pathIdxs)
      else None)"

definition calculateETA :: "real \<Rightarrow> real \<Rightarrow> real" where
  "calculateETA distanceMeters avgSpeedKmh = ((distanceMeters / 1000) / avgSpeedKmh) * 60"

text \<open>The cost the search has computed for the goal when it returns a path: \<open>gScore.get(goalIdx)\<close>.\<close>

definition astarCost :: "Graph \<Rightarrow> int \<Rightarrow> int \<Rightarrow> score option" where
  "astarCost graph startIdx goalIdx =
     (case astarSearch graph startIdx goalIdx of
        Some (Path p, st) \<Rightarrow> gScore st (nat goalIdx)
      | _ \<Rightarrow> None)"

section \<open>Invariants of the search\<close>


definition nonnegCosts :: "Graph \<Rightarrow> bool" where
  "nonnegCosts g \<longleftrightarrow> (\<forall>i < length (nodes g). \<forall>e \<in> set (edges (nodes g ! i)). 0 \<le> cost e)"

definition hOf :: "Graph \<Rightarrow> nat \<Rightarrow> nat \<Rightarrow> real" where
  "hOf g goal n = heuristic (nodes g ! n) (nodes g ! goal)"


text \<open>
  The back-pointer chain of a node: it leads to the start, each link is an edge of the graph,
  and scores do not increase towards the start by less than the edge cost.
\<close>

inductive chain :: "Graph \<Rightarrow> astar_state \<Rightarrow> nat \<Rightarrow> nat \<Rightarrow> GraphEdge list \<Rightarrow> bool"
  for g :: Graph and st :: astar_state and s :: nat where
  chain_start: "cameFrom st s = None \<Longrightarrow> chain g st s s []"
| chain_step: "cameFrom st n = Some m \<Longrightarrow> chain g st s m es \<Longrightarrow>
     gScore st m = Some (Fin a) \<Longrightarrow> gScore st n = Some (Fin b) \<Longrightarrow>
     m < length (nodes g) \<Longrightarrow> e \<in> set (edges (nodes g ! m)) \<Longrightarrow> to e = n \<Longrightarrow>
     a + cost e \<le> b \<Longrightarrow> chain g st s n (es @ [e])"

text \<open>Simple paths from the start and the finite set of their costs.\<close>

definition simplePath :: "Graph \<Rightarrow> nat \<Rightarrow> GraphEdge list \<Rightarrow> nat \<Rightarrow> bool" where
  "simplePath g s es n \<longleftrightarrow> isPath g s es n \<and> distinct (pathNodes s es)"

definition simpleCosts :: "Graph \<Rightarrow> nat \<Rightarrow> real set" where
  "simpleCosts g s = pathCost ` {es. \<exists>n. simplePath g s es n}"





text \<open>The measure of progress: how many simple-path costs still lie below the scores.\<close>

definition below :: "Graph \<Rightarrow> nat \<Rightarrow> astar_state \<Rightarrow> nat \<Rightarrow> real set" where
  "below g s st n = {x \<in> simpleCosts g s. \<forall>sc. gScore st n = Some sc \<longrightarrow> scoreLess (Fin x) sc}"


text \<open>The state after a relaxation that lowers the score of the edge's target.\<close>

definition improved :: "Graph \<Rightarrow> nat \<Rightarrow> nat \<Rightarrow> GraphEdge \<Rightarrow> real \<Rightarrow> astar_state \<Rightarrow> astar_state" where
  "improved g goal cur e a st =
     st\<lparr>cameFrom := (cameFrom st)(to e \<mapsto> cur),
        gScore := (gScore st)(to e \<mapsto> Fin (a + cost e)),
        fScore := (fScore st)(to e \<mapsto> Fin (a + cost e + hOf g goal (to e))),
        openSet := setAdd (to e) (openSet st)\<rparr>"





text \<open>
  A heuristic is consistent when it drops along an edge by no more than the edge's cost; this
  can be checked edge by edge and implies admissibility.
\<close>

definition consistent :: "Graph \<Rightarrow> nat \<Rightarrow> bool" where
  "consistent g goal \<longleftrightarrow>
     (\<forall>u < length (nodes g). \<forall>e \<in> set (edges (nodes g ! u)). hOf g goal u \<le> cost e + hOf g goal (to e))"

text \<open>Metres per degree of longitude on the equator.\<close>

definition mPerDeg :: real where
  "mPerDeg = 6371000 * pi / 180"

section \<open>Back pointers that are exact\<close>


definition gv :: "astar_state \<Rightarrow> nat \<Rightarrow> real" where
  "gv st n = (case gScore st n of Some (Fin x) \<Rightarrow> x | _ \<Rightarrow> 0)"

definition fval :: "Graph \<Rightarrow> nat \<Rightarrow> astar_state \<Rightarrow> nat \<Rightarrow> real" where
  "fval g goal st n = gv st n + hOf g goal n"












section \<open>Points on the unit sphere\<close>



section \<open>Coordinates that keep their own node\<close>



section \<open>The routing effect of the map component\<close>

text \<open>
  What one run of the routing effect leaves behind: nothing to route, a start or end point
  without a nearest node, no route, a route with its coordinates, distance in metres and ETA
  in minutes, or an exception caught by the effect's \<open>try\<close> block.
\<close>

datatype route_outcome =
  NotRouted | LookupFailure | NoRouteFound | Route "coord list" real real | RouteError

definition filteredSegments :: "bool \<Rightarrow> RoadSegment list \<Rightarrow> RoadSegment list" where
  "filteredSegments tallVehicleRouting roadSegments =
     (if tallVehicleRouting
      then filter (\<lambda>s. status s = restricted \<or> status s = passable) roadSegments
      else filter (\<lambda>s. status s = passable) roadSegments)"

text \<open>The effect with a map present; \<open>None\<close> is a search that does not come back.\<close>

definition routingEffect ::
  "RoadSegment list \<Rightarrow> coord option \<Rightarrow> coord option \<Rightarrow> bool \<Rightarrow> bool \<Rightarrow> route_outcome option" where
  "routingEffect roadSegments startPoint endPoint routingEnabled tallVehicleRouting =
     (case (startPoint, endPoint) of
        (Some sp, Some ep) \<Rightarrow>
          if roadSegments = [] \<or> \<not> routingEnabled then Some NotRouted
          else
            (let graph = buildGraph (filteredSegments tallVehicleRouting roadSegments) tallVehicleRouting;
                 startNodeIdx = findNearestNode graph (fst sp) (snd sp);
                 endNodeIdx = findNearestNode graph (fst ep) (snd ep)
             in if startNodeIdx = - 1 \<or> endNodeIdx = - 1 then Some LookupFailure
                else
                  (case astar graph startNodeIdx endNodeIdx of
                     None \<Rightarrow> None
                   | Some TypeError \<Rightarrow> Some RouteError
                   | Some Null \<Rightarrow> Some NoRouteFound
                   | Some (Path routeNodes) \<Rightarrow>
                       if routeNodes = [] then Some NoRouteFound
                       else
                         (case (nodesToLatLng graph routeNodes, calculateRouteDistance graph routeNodes) of
                            (Some routeCoords, Some distance) \<Rightarrow>
                              Some (Route routeCoords distance (calculateETA distance 30))
                          | _ \<Rightarrow> Some RouteError)))
      | _ \<Rightarrow> Some NotRouted)"

section \<open>Segment assembly\<close>

text \<open>
  A raw road feature: its properties, here the string-valued ones, and the coordinates of its
  line as \<open>[lng, lat]\<close> pairs. An entry of the status log as the persistence layer returns it.
\<close>

record GeoJSONLineFeature =
  feature_properties :: "(string \<times> string) list"
  geometry_coordinates :: "coord list"

record RoadStatusUpdate =
  update_id :: string
  segment_id :: string
  road_name :: string
  update_status :: RoadStatus
  updated_at :: string
  updated_by_email :: string

text \<open>A property read, and JavaScript truthiness of what it gives: present and not empty.\<close>

definition truthy :: "string option \<Rightarrow> bool" where
  "truthy v = (case v of None \<Rightarrow> False | Some s \<Rightarrow> s \<noteq> [])"

definition jsOr :: "string option \<Rightarrow> string option \<Rightarrow> string option" where
  "jsOr a b = (if truthy a then a else b)"

text \<open>
  The module keeps a counter for \<open>makeId\<close>. It is carried through the assembly below as the
  module state it is.
\<close>

definition makeId :: "nat \<Rightarrow> string \<times> nat" where
  "makeId counter = (''segment_'' @ digits (Suc counter), Suc counter)"

text \<open>The string hash of \<open>createDeterministicId\<close>, on 32-bit integers.\<close>

definition hashStep :: "32 word \<Rightarrow> char \<Rightarrow> 32 word" where
  "hashStep hash c = (push_bit 5 hash - hash) + of_nat (of_char c)"

fun joinWith :: "string \<Rightarrow> string list \<Rightarrow> string" where
  "joinWith sep [] = []"
| "joinWith sep [x] = x"
| "joinWith sep (x # y # rest) = x @ sep @ joinWith sep (y # rest)"

definition coordString :: "coord list \<Rightarrow> string" where
  "coordString cs = joinWith ''|'' (map (\<lambda>c. toFixed 6 (fst c) @ '','' @ toFixed 6 (snd c)) cs)"

definition createDeterministicId :: "coord list \<Rightarrow> string option \<Rightarrow> nat option \<Rightarrow> string" where
  "createDeterministicId cs lineId segmentIndex =
     (case (truthy lineId, lineId, segmentIndex) of
        (True, Some l, Some k) \<Rightarrow> l @ ''_seg_'' @ digits k
      | _ \<Rightarrow> ''seg_'' @ digits (nat \<bar>sint (foldl hashStep 0 (coordString cs))\<bar>))"

text \<open>Intersection of two line pieces, and all intersections of two lines.\<close>

definition getLineIntersection :: "coord \<Rightarrow> coord \<Rightarrow> coord \<Rightarrow> coord \<Rightarrow> coord option" where
  "getLineIntersection p1 p2 p3 p4 =
     (let x1 = fst p1; y1 = snd p1; x2 = fst p2; y2 = snd p2;
          x3 = fst p3; y3 = snd p3; x4 = fst p4; y4 = snd p4;
          denom = (x1 - x2) * (y3 - y4) - (y1 - y2) * (x3 - x4)
      in if \<bar>denom\<bar> < 1 / 10 ^ 10 then None
         else
           (let t = ((x1 - x3) * (y3 - y4) - (y1 - y3) * (x3 - x4)) / denom;
                u = - ((x1 - x2) * (y1 - y3) - (y1 - y2) * (x1 - x3)) / denom
            in if 0 \<le> t \<and> t \<le> 1 \<and> 0 \<le> u \<and> u \<le> 1
               then Some (x1 + t * (x2 - x1), y1 + t * (y2 - y1))
               else None))"

definition findIntersections :: "coord list \<Rightarrow> coord list \<Rightarrow> coord list" where
  "findIntersections line1 line2 =
     concat (map (\<lambda>i. concat (map (\<lambda>j.
        (case getLineIntersection (line1 ! i) (line1 ! Suc i) (line2 ! j) (line2 ! Suc j) of
           None \<Rightarrow> []
         | Some p \<Rightarrow> [p])) [0 ..< length line2 - 1])) [0 ..< length line1 - 1])"

definition dist2 :: "coord \<Rightarrow> coord \<Rightarrow> real" where
  "dist2 p q = sqrt ((fst p - fst q)\<^sup>2 + (snd p - snd q)\<^sup>2)"

definition projectionT :: "coord \<Rightarrow> coord \<Rightarrow> coord \<Rightarrow> real" where
  "projectionT point lineStart lineEnd =
     (let dx = fst lineEnd - fst lineStart; dy = snd lineEnd - snd lineStart;
          len = sqrt (dx * dx + dy * dy)
      in max 0 (min 1 (((fst point - fst lineStart) * dx + (snd point - snd lineStart) * dy) / (len * len))))"

definition getProjectionDistance :: "coord \<Rightarrow> coord \<Rightarrow> coord \<Rightarrow> real" where
  "getProjectionDistance point lineStart lineEnd =
     (let dx = fst lineEnd - fst lineStart; dy = snd lineEnd - snd lineStart;
          len = sqrt (dx * dx + dy * dy)
      in if len = 0 then 0 else projectionT point lineStart lineEnd * len)"

definition pointToLineDistance :: "coord \<Rightarrow> coord \<Rightarrow> coord \<Rightarrow> real" where
  "pointToLineDistance point lineStart lineEnd =
     (let dx = fst lineEnd - fst lineStart; dy = snd lineEnd - snd lineStart;
          len = sqrt (dx * dx + dy * dy)
      in if len = 0 then dist2 point lineStart
         else
           (let t = projectionT point lineStart lineEnd
            in dist2 point (fst lineStart + t * dx, snd lineStart + t * dy)))"

text \<open>
  The scan of \<open>getDistanceAlongLine\<close>: position \<open>i\<close>, the least distance so far, the distance
  along the line that goes with it, and the length walked.
\<close>

definition alongStep :: "coord list \<Rightarrow> coord \<Rightarrow> score \<times> real \<times> real \<Rightarrow> nat \<Rightarrow> score \<times> real \<times> real" where
  "alongStep line point acc i =
     (let minDistance = fst acc; bestDistance = fst (snd acc); accumulatedDistance = snd (snd acc);
          segmentStart = line ! i; segmentEnd = line ! Suc i;
          segmentLength = dist2 segmentEnd segmentStart;
          distanceToSegment = pointToLineDistance point segmentStart segmentEnd
      in if scoreLess (Fin distanceToSegment) minDistance
         then (Fin distanceToSegment,
               accumulatedDistance + getProjectionDistance point segmentStart segmentEnd,
               accumulatedDistance + segmentLength)
         else (minDistance, bestDistance, accumulatedDistance + segmentLength))"

definition getDistanceAlongLine :: "coord list \<Rightarrow> coord \<Rightarrow> real" where
  "getDistanceAlongLine line point =
     fst (snd (foldl (alongStep line point) (Infinity, 0, 0) [0 ..< length line - 1]))"

definition nearestPointStep :: "coord list \<Rightarrow> coord \<Rightarrow> score \<times> nat \<Rightarrow> nat \<Rightarrow> score \<times> nat" where
  "nearestPointStep line point acc i =
     (let distance = dist2 (line ! i) point
      in if scoreLess (Fin distance) (fst acc) then (Fin distance, i) else acc)"

definition findNearestPointIndex :: "coord list \<Rightarrow> coord \<Rightarrow> nat" where
  "findNearestPointIndex line point =
     snd (foldl (nearestPointStep line point) (Infinity, 0) [0 ..< length line])"

text \<open>Splitting a line at its intersection points.\<close>

definition newSegment :: "coord list \<Rightarrow> string option \<Rightarrow> nat \<Rightarrow> RoadSegment" where
  "newSegment cs lineId k =
     \<lparr>seg_id = createDeterministicId cs lineId (Some k), coordinates = cs, properties = [],
      status = passable\<rparr>"

definition splitStep ::
  "coord list \<Rightarrow> string option \<Rightarrow> RoadSegment list \<times> nat \<Rightarrow> coord \<Rightarrow> RoadSegment list \<times> nat" where
  "splitStep line lineId acc intersection =
     (let segments = fst acc; currentStart = snd acc;
          intersectionIndex = findNearestPointIndex line intersection
      in if currentStart < intersectionIndex then
           (let segmentCoords = take (intersectionIndex + 1 - currentStart) (drop currentStart line)
            in if 1 < length segmentCoords
               then (segments @ [newSegment segmentCoords lineId (length segments)], intersectionIndex)
               else (segments, intersectionIndex))
         else (segments, intersectionIndex))"

definition splitLineAtIntersections :: "coord list \<Rightarrow> coord list \<Rightarrow> string option \<Rightarrow> RoadSegment list" where
  "splitLineAtIntersections line intersections lineId =
     (if intersections = [] then [newSegment line lineId 0]
      else
        (let sortedIntersections = sort_key (getDistanceAlongLine line) intersections;
             acc = foldl (splitStep line lineId) ([], 0) sortedIntersections;
             segments = fst acc; currentStart = snd acc
         in if Suc currentStart < length line then
              (let segmentCoords = drop currentStart line
               in if 1 < length segmentCoords
                  then segments @ [newSegment segmentCoords lineId (length segments)]
                  else segments)
            else segments))"

text \<open>
  \<open>initializeSegments\<close>. The features come from the bundled road data and the latest log
  entries from the persistence layer. Where the log has an entry for a segment id, the source
  stores that entry itself in the segment's \<open>status\<close> field; the model keeps the segment as it
  was split, with the feature's properties, and pairs it with that entry.
\<close>

definition isRoad :: "GeoJSONLineFeature \<Rightarrow> bool" where
  "isRoad feature =
     (let highway = map_of (feature_properties feature) ''highway''
      in truthy highway \<and> the highway \<notin> set [''footway'', ''cycleway'', ''path'', ''steps''])"

definition latLng :: "GeoJSONLineFeature \<Rightarrow> coord list" where
  "latLng feature = map (\<lambda>coord. (snd coord, fst coord)) (geometry_coordinates feature)"

definition allIntersectionsOf :: "GeoJSONLineFeature list \<Rightarrow> coord list" where
  "allIntersectionsOf roadFeatures =
     concat (map (\<lambda>i. concat (map (\<lambda>j.
        findIntersections (latLng (roadFeatures ! i)) (latLng (roadFeatures ! j)))
        [Suc i ..< length roadFeatures])) [0 ..< length roadFeatures])"

definition nearLine :: "coord list \<Rightarrow> coord \<Rightarrow> bool" where
  "nearLine line intersection =
     list_ex (\<lambda>point. \<bar>fst point - fst intersection\<bar> < 1 / 10000 \<and>
                       \<bar>snd point - snd intersection\<bar> < 1 / 10000) line"

definition featureSegments ::
  "(string \<rightharpoonup> RoadStatusUpdate) \<Rightarrow> coord list \<Rightarrow> GeoJSONLineFeature \<Rightarrow>
     (RoadSegment \<times> RoadStatusUpdate option) list" where
  "featureSegments latestStatusMap allIntersections feature =
     (let line = latLng feature;
          lineId = jsOr (map_of (feature_properties feature) ''@id'') (map_of (feature_properties feature) ''id'');
          lineIntersections = filter (nearLine line) allIntersections;
          segments = splitLineAtIntersections line lineIntersections lineId
      in map (\<lambda>segment. (segment\<lparr>properties := feature_properties feature\<rparr>, latestStatusMap (seg_id segment)))
           segments)"

definition initializeSegments ::
  "nat \<Rightarrow> (string \<rightharpoonup> RoadStatusUpdate) \<Rightarrow> GeoJSONLineFeature list \<Rightarrow>
     (RoadSegment \<times> RoadStatusUpdate option) list \<times> nat" where
  "initializeSegments counter latestStatusMap features =
     (let roadFeatures = filter isRoad features;
          allIntersections = allIntersectionsOf roadFeatures
      in (concat (map (featureSegments latestStatusMap allIntersections) roadFeatures), counter))"

text \<open>
  What holds of the pieces collected while a line is split: piece \<open>k\<close> was made with index
  \<open>k\<close>, and its coordinates are at least two consecutive positions of the line.
\<close>

definition pieces :: "coord list \<Rightarrow> string option \<Rightarrow> RoadSegment list \<Rightarrow> bool" where
  "pieces line lineId segments \<longleftrightarrow>
     (\<forall>k < length segments.
        segments ! k = newSegment (coordinates (segments ! k)) lineId k \<and>
        2 \<le> length (coordinates (segments ! k)) \<and>
        (\<exists>a n. coordinates (segments ! k) = take n (drop a line)))"

section \<open>The status reconciler (MapContainer.tsx)\<close>

text \<open>
  The state of the component that the reconciler reads and writes: the React state
  roadSegments, the value roadStatusUpdates of the feed hook, the set held by the ref
  locallyUpdatedSegments, and the timeouts that were set and have not fired yet. A timeout
  is the time at which it fires, in milliseconds, and the segment id that its callback
  deletes from locallyUpdatedSegments. No timeout is ever cleared.
\<close>

record component =
  roadSegments_st :: "RoadSegment list"
  roadStatusUpdates_st :: "RoadStatusUpdate list"
  locallyUpdatedSegments :: "string set"
  timeouts :: "(nat \<times> string) list"

text \<open>The object latestStatusMap of the real-time effect: a later update of a segment
  overwrites an earlier one.\<close>

definition statusMap :: "RoadStatusUpdate list \<Rightarrow> (string \<rightharpoonup> RoadStatus)" where
  "statusMap updates =
     foldl (\<lambda>m update. m(segment_id update \<mapsto> update_status update)) Map.empty updates"

text \<open>The callback of roadSegments.map in the effect, without its setTimeout.\<close>

definition reconcileSegment ::
  "string set \<Rightarrow> (string \<rightharpoonup> RoadStatus) \<Rightarrow> RoadSegment \<Rightarrow> RoadSegment" where
  "reconcileSegment locally statuses segment =
     (if seg_id segment \<in> locally then segment
      else case statuses (seg_id segment) of
             None \<Rightarrow> segment
           | Some latestStatus \<Rightarrow>
               if latestStatus \<noteq> status segment then segment\<lparr>status := latestStatus\<rparr> else segment)"

definition hasChanges :: "RoadSegment list \<Rightarrow> RoadSegment list \<Rightarrow> bool" where
  "hasChanges updatedSegments roadSegments =
     list_ex (\<lambda>index. status (updatedSegments ! index) \<noteq> status (roadSegments ! index))
       [0..<length updatedSegments]"

text \<open>
  One run of the real-time effect at the time now. Each segment found in
  locallyUpdatedSegments is kept as it is, and a timeout of 2000 ms is set for it, in the
  order of the segments.
\<close>

definition realtimeEffect :: "nat \<Rightarrow> component \<Rightarrow> component" where
  "realtimeEffect now c =
     (if roadStatusUpdates_st c = [] \<or> roadSegments_st c = [] then c
      else
        let statuses = statusMap (roadStatusUpdates_st c);
            updatedSegments =
              map (reconcileSegment (locallyUpdatedSegments c) statuses) (roadSegments_st c);
            set_now = map (\<lambda>segment. (now + 2000, seg_id segment))
              (filter (\<lambda>segment. seg_id segment \<in> locallyUpdatedSegments c) (roadSegments_st c))
        in c\<lparr>timeouts := timeouts c @ set_now,
             roadSegments_st :=
               (if hasChanges updatedSegments (roadSegments_st c) then updatedSegments
                else roadSegments_st c)\<rparr>)"

text \<open>
  The effect depends on roadStatusUpdates and roadSegments: it runs after a render in which
  one of them is a new array, and once more when it has itself set roadSegments.
\<close>

definition afterRender :: "nat \<Rightarrow> component \<Rightarrow> component" where
  "afterRender now c =
     (let c' = realtimeEffect now c
      in if roadSegments_st c' \<noteq> roadSegments_st c then realtimeEffect now c' else c')"

text \<open>handleSegmentStatusSelect, on the segment of segmentSelector (None when it is null).\<close>

definition handleSegmentStatusSelect ::
  "RoadSegment option \<Rightarrow> RoadStatus \<Rightarrow> component \<Rightarrow> component" where
  "handleSegmentStatusSelect selected newStatus c =
     (case selected of
        None \<Rightarrow> c
      | Some segment \<Rightarrow>
          c\<lparr>locallyUpdatedSegments := insert (seg_id segment) (locallyUpdatedSegments c),
            roadSegments_st :=
              map (\<lambda>s. if seg_id s = seg_id segment then s\<lparr>status := newStatus\<rparr> else s)
                (roadSegments_st c)\<rparr>)"

text \<open>The timeouts that are due at the time now fire: each deletes its id from the set.\<close>

definition fireTimeouts :: "nat \<Rightarrow> component \<Rightarrow> component" where
  "fireTimeouts now c =
     c\<lparr>locallyUpdatedSegments :=
         locallyUpdatedSegments c - snd ` set (filter (\<lambda>t. fst t \<le> now) (timeouts c)),
       timeouts := filter (\<lambda>t. now < fst t) (timeouts c)\<rparr>"

text \<open>
  What reaches the component, one event at a time: the user gives a segment a status in the
  selector, or the feed hook delivers a new array of updates. Each event carries its time;
  the timeouts due by then fire first.
\<close>

datatype event = LocalEdit string RoadStatus | FeedUpdate "RoadStatusUpdate list"

fun deliver :: "component \<Rightarrow> nat \<times> event \<Rightarrow> component" where
  "deliver c (now, LocalEdit segmentId newStatus) =
     (let c1 = fireTimeouts now c
      in afterRender now
           (handleSegmentStatusSelect
              (find (\<lambda>s. seg_id s = segmentId) (roadSegments_st c1)) newStatus c1))"
| "deliver c (now, FeedUpdate updates) =
     afterRender now ((fireTimeouts now c)\<lparr>roadStatusUpdates_st := updates\<rparr>)"

definition deliverAll :: "component \<Rightarrow> (nat \<times> event) list \<Rightarrow> component" where
  "deliverAll c events = foldl deliver c events"

section \<open>Facts about the haversine distance\<close>

lemma atan2_nonneg: "0 \<le> y \<Longrightarrow> 0 \<le> atan2 y x"
proof -
  assume y: "0 \<le> y"
  have "- (pi / 2) < arctan (y / x)" by (rule arctan_lbound)
  then have "0 \<le> arctan (y / x) + pi" using pi_gt_zero by linarith
  moreover have "0 < x \<Longrightarrow> 0 \<le> arctan (y / x)" using y by (simp add: zero_le_arctan_iff)
  ultimately show ?thesis using y by (simp add: atan2_def)
qed

lemma cos_prod: "cos (A + B) * cos (A - (B::real)) = (cos A)\<^sup>2 - (sin B)\<^sup>2"
proof -
  have "cos (A + B) * cos (A - B) = (cos A * cos B - sin A * sin B) * (cos A * cos B + sin A * sin B)"
    by (simp only: cos_add cos_diff)
  also have "\<dots> = (cos A)\<^sup>2 * (cos B)\<^sup>2 - (sin A)\<^sup>2 * (sin B)\<^sup>2"
    by (simp add: power2_eq_square algebra_simps)
  also have "\<dots> = (cos A)\<^sup>2 * (1 - (sin B)\<^sup>2) - (1 - (cos A)\<^sup>2) * (sin B)\<^sup>2"
    by (simp only: cos_squared_eq [of B] sin_squared_eq [of A])
  also have "\<dots> = (cos A)\<^sup>2 - (sin B)\<^sup>2" by (simp add: algebra_simps)
  finally show ?thesis .
qed

lemma hav_arg_nonneg:
  "0 \<le> sin ((y - x) / 2) * sin ((y - x) / 2) + cos x * cos y * sin d * sin (d::real)"
proof -
  define S where "S = (sin ((x - y) / 2))\<^sup>2"
  define C where "C = (cos ((x + y) / 2))\<^sup>2"
  define s where "s = (sin d)\<^sup>2"
  have "\<bar>sin d\<bar> \<le> 1" by simp
  then have s: "0 \<le> s" "s \<le> 1" unfolding s_def by (simp_all add: abs_square_le_1)
  have xy: "x = (x + y) / 2 + (x - y) / 2" "y = (x + y) / 2 - (x - y) / 2" by (simp_all add: field_simps)
  have "cos x * cos y = cos ((x + y) / 2 + (x - y) / 2) * cos ((x + y) / 2 - (x - y) / 2)"
    using xy by simp
  then have cc: "cos x * cos y = C - S" unfolding C_def S_def by (simp only: cos_prod)
  have "sin ((y - x) / 2) = - sin ((x - y) / 2)"
    by (metis minus_diff_eq minus_divide_left sin_minus)
  then have ss: "sin ((y - x) / 2) * sin ((y - x) / 2) = S" unfolding S_def by (simp add: power2_eq_square)
  have "cos x * cos y * sin d * sin d = (cos x * cos y) * (sin d)\<^sup>2"
    by (simp add: power2_eq_square)
  then have "cos x * cos y * sin d * sin d = (C - S) * s" by (simp only: cc s_def)
  then have "sin ((y - x) / 2) * sin ((y - x) / 2) + cos x * cos y * sin d * sin d = S + (C - S) * s"
    by (simp only: ss)
  also have "\<dots> = S * (1 - s) + C * s" by (simp add: algebra_simps)
  finally have eq: "sin ((y - x) / 2) * sin ((y - x) / 2) + cos x * cos y * sin d * sin d = S * (1 - s) + C * s" .
  have "0 \<le> S * (1 - s)" unfolding S_def using s by simp
  moreover have "0 \<le> C * s" unfolding C_def using s by simp
  ultimately show ?thesis using eq by simp
qed

lemma haversine_nonneg: "0 \<le> haversineDistance lat1 lon1 lat2 lon2"
proof -
  have d: "((lat2 - lat1) * pi) / 180 / 2 = ((lat2 * pi) / 180 - (lat1 * pi) / 180) / 2"
    by (simp add: field_simps)
  have "0 \<le> sin (((lat2 - lat1) * pi) / 180 / 2) * sin (((lat2 - lat1) * pi) / 180 / 2) +
      cos ((lat1 * pi) / 180) * cos ((lat2 * pi) / 180) * sin (((lon2 - lon1) * pi) / 180 / 2) *
      sin (((lon2 - lon1) * pi) / 180 / 2)"
    unfolding d by (rule hav_arg_nonneg)
  then have "0 \<le> atan2 (sqrt (sin (((lat2 - lat1) * pi) / 180 / 2) * sin (((lat2 - lat1) * pi) / 180 / 2) +
      cos ((lat1 * pi) / 180) * cos ((lat2 * pi) / 180) * sin (((lon2 - lon1) * pi) / 180 / 2) *
      sin (((lon2 - lon1) * pi) / 180 / 2))) x" for x
    by (intro atan2_nonneg) simp
  then show ?thesis unfolding haversineDistance_def Let_def by simp
qed

lemma haversine_self: "haversineDistance la lo la lo = 0"
  by (simp add: haversineDistance_def atan2_def)

lemma sin_half_swap: "sin (((c - a) * pi) / 180 / 2) = - sin (((a - c) * pi) / 180 / (2::real))"
proof -
  have "c - a = - (a - c)" by simp
  then have e: "((c - a) * pi) / 180 / 2 = - (((a - c) * pi) / 180 / 2)" by (simp only: mult_minus_left minus_divide_left)
  show ?thesis by (simp only: e sin_minus)
qed

lemma haversine_sym: "haversineDistance a b c d = haversineDistance c d a b"
  unfolding haversineDistance_def Let_def sin_half_swap [of c a] sin_half_swap [of d b]
  by (simp add: mult.commute)

lemma haversine_equator:
  assumes "\<bar>y - x\<bar> < 180"
  shows "haversineDistance 0 x 0 y = 6371000 * pi / 180 * \<bar>y - x\<bar>"
proof -
  define t where "t = ((y - x) * pi) / 180 / 2"
  have t: "\<bar>t\<bar> < pi / 2"
  proof -
    have "\<bar>t\<bar> = \<bar>y - x\<bar> * pi / 360" unfolding t_def by (simp add: abs_mult)
    also have "\<dots> < 180 * pi / 360" using assms by (simp add: divide_strict_right_mono)
    finally show ?thesis by simp
  qed
  then have c: "0 < cos t" by (intro cos_gt_zero_pi) (simp_all add: abs_less_iff)
  have a: "sin t * sin t = (sin t)\<^sup>2" by (simp add: power2_eq_square)
  have s1: "sqrt ((sin t)\<^sup>2) = \<bar>sin t\<bar>" by simp
  have "1 - (sin t)\<^sup>2 = (cos t)\<^sup>2" by (simp add: cos_squared_eq)
  then have s2: "sqrt (1 - (sin t)\<^sup>2) = cos t" using c by simp
  have "\<bar>sin t\<bar> / cos t = tan \<bar>t\<bar>"
  proof (cases "0 \<le> t")
    case True
    then have "t \<le> pi" using t by simp
    then have "0 \<le> sin t" using True by (intro sin_ge_zero)
    then show ?thesis using True by (simp add: tan_def)
  next
    case False
    then have "0 \<le> - t" "- t \<le> pi" using t by simp_all
    then have "0 \<le> sin (- t)" by (intro sin_ge_zero)
    then have "sin t \<le> 0" by simp
    then show ?thesis using False by (simp add: tan_def)
  qed
  then have "arctan (\<bar>sin t\<bar> / cos t) = \<bar>t\<bar>"
    using t by (simp add: arctan_tan)
  then have "atan2 \<bar>sin t\<bar> (cos t) = \<bar>t\<bar>" using c by (simp add: atan2_def)
  then have "haversineDistance 0 x 0 y = 6371000 * 2 * \<bar>t\<bar>"
    unfolding haversineDistance_def Let_def t_def [symmetric] by (simp add: a s1 s2)
  also have "\<dots> = 6371000 * pi / 180 * \<bar>y - x\<bar>" unfolding t_def by (simp add: abs_mult)
  finally show ?thesis .
qed

section \<open>The triangle inequality of the haversine distance\<close>














section \<open>The node key is injective on rounded coordinates\<close>

lemma digitsVal_append: "digitsVal acc (xs @ ys) = digitsVal (digitsVal acc xs) ys"
  by (induction xs arbitrary: acc) auto

lemma digit_mod: "(48 + n mod 10) mod 256 = 48 + (n mod 10 :: nat)"
proof -
  have "n mod 10 < 10" by simp
  then show ?thesis by simp
qed

lemma digitsVal_digits: "digitsVal 0 (digits n) = n"
proof (induction n rule: digits.induct)
  case (1 n)
  show ?case
  proof (cases "n < 10")
    case True
    then show ?thesis by (subst digits.simps) simp
  next
    case False
    then have "digitsVal 0 (digits (n div 10)) = n div 10" using 1 by simp
    then show ?thesis using False
      by (subst digits.simps) (simp add: digitsVal_append digit_mod)
  qed
qed

lemma digits_isDigit: "c \<in> set (digits n) \<Longrightarrow> isDigit c"
proof (induction n rule: digits.induct)
  case (1 n)
  have m: "n mod 10 < 10" by simp
  show ?case
  proof (cases "n < 10")
    case True
    then show ?thesis using 1(2) by (subst (asm) digits.simps) (simp add: isDigit_def)
  next
    case False
    then show ?thesis using 1 m
      by (subst (asm) (2) digits.simps) (auto simp: isDigit_def digit_mod)
  qed
qed

lemma digitsVal_zeros: "digitsVal 0 (replicate k (CHR ''0'') @ xs) = digitsVal 0 xs"
  by (induction k) auto

lemma filter_isDigit_id: "(\<And>c. c \<in> set xs \<Longrightarrow> isDigit c) \<Longrightarrow> filter isDigit xs = xs"
  by (induction xs) auto

lemma isDigit_special [simp]:
  "\<not> isDigit (CHR ''-'')" "\<not> isDigit (CHR ''.'')" "\<not> isDigit (CHR '','')" "isDigit (CHR ''0'')"
  by (simp_all add: isDigit_def)

lemma toFixed_digits:
  "digitsVal 0 (filter isDigit (toFixed f x)) = fixedVal f x"
proof -
  define ds where "ds = digits (fixedVal f x)"
  define z where "z = (if length ds \<le> f then replicate (f + 1 - length ds) (CHR ''0'') @ ds else ds)"
  have dz: "\<And>c. c \<in> set z \<Longrightarrow> isDigit c"
    unfolding z_def ds_def by (auto dest: digits_isDigit split: if_splits)
  have fz: "filter isDigit z = z" by (rule filter_isDigit_id) (rule dz)
  have fds: "filter isDigit ds = ds" unfolding ds_def by (rule filter_isDigit_id) (rule digits_isDigit)
  have "filter isDigit (take (length z - f) z) @ filter isDigit (drop (length z - f) z) = z"
    using fz by (metis append_take_drop_id filter_append)
  moreover have "digitsVal 0 z = fixedVal f x"
    unfolding z_def ds_def by (simp add: digitsVal_zeros digitsVal_digits)
  moreover have "digitsVal 0 ds = fixedVal f x"
    unfolding ds_def by (simp add: digitsVal_digits)
  ultimately show ?thesis
    unfolding toFixed_def Let_def fixedVal_def [symmetric] ds_def [symmetric] z_def [symmetric]
    by (simp add: fds)
qed

lemma toFixed_chars:
  "c \<in> set (toFixed f x) \<Longrightarrow> isDigit c \<or> c = CHR ''.'' \<or> (c = CHR ''-'' \<and> x < 0)"
  unfolding toFixed_def Let_def
  by (auto dest!: digits_isDigit in_set_takeD in_set_dropD split: if_splits)

lemma toFixed_minus: "CHR ''-'' \<in> set (toFixed f x) \<longleftrightarrow> x < 0"
proof
  assume "CHR ''-'' \<in> set (toFixed f x)"
  from toFixed_chars [OF this] show "x < 0" by simp
next
  assume "x < 0" then show "CHR ''-'' \<in> set (toFixed f x)"
    unfolding toFixed_def Let_def by simp
qed

lemma toFixed_eq_iff:
  "toFixed f x = toFixed f y \<longleftrightarrow> (x < 0 \<longleftrightarrow> y < 0) \<and> fixedVal f x = fixedVal f y"
proof
  assume e: "toFixed f x = toFixed f y"
  show "(x < 0 \<longleftrightarrow> y < 0) \<and> fixedVal f x = fixedVal f y"
    using toFixed_minus [of f x] toFixed_minus [of f y] toFixed_digits [of f x] toFixed_digits [of f y] e
    by simp
next
  assume "(x < 0 \<longleftrightarrow> y < 0) \<and> fixedVal f x = fixedVal f y"
  then have h: "(x < 0) = (y < 0)" "nat \<lfloor>\<bar>x\<bar> * 10 ^ f + 1 / 2\<rfloor> = nat \<lfloor>\<bar>y\<bar> * 10 ^ f + 1 / 2\<rfloor>"
    by (simp_all add: fixedVal_def)
  show "toFixed f x = toFixed f y"
    by (simp only: toFixed_def Let_def h)
qed

lemma toFixed_no_comma: "CHR '','' \<notin> set (toFixed f x)"
  using toFixed_chars [of "CHR '',''" f x] by auto

lemma nodeKey_eq_iff:
  "nodeKey a b = nodeKey c d \<longleftrightarrow>
     (a < 0 \<longleftrightarrow> c < 0) \<and> fixedVal 9 a = fixedVal 9 c \<and> (b < 0 \<longleftrightarrow> d < 0) \<and> fixedVal 9 b = fixedVal 9 d"
proof -
  have tw: "\<And>u v. takeWhile (\<lambda>c. c \<noteq> CHR '','') (toFixed 9 u @ '','' @ toFixed 9 v) = toFixed 9 u"
  proof -
    fix u v
    have "\<And>c. c \<in> set (toFixed 9 u) \<Longrightarrow> c \<noteq> CHR '',''" using toFixed_no_comma by metis
    then show "takeWhile (\<lambda>c. c \<noteq> CHR '','') (toFixed 9 u @ '','' @ toFixed 9 v) = toFixed 9 u"
      by (simp add: takeWhile_append2)
  qed
  have dw: "\<And>u v. dropWhile (\<lambda>c. c \<noteq> CHR '','') (toFixed 9 u @ '','' @ toFixed 9 v) = '','' @ toFixed 9 v"
  proof -
    fix u v
    have "\<And>c. c \<in> set (toFixed 9 u) \<Longrightarrow> c \<noteq> CHR '',''" using toFixed_no_comma by metis
    then show "dropWhile (\<lambda>c. c \<noteq> CHR '','') (toFixed 9 u @ '','' @ toFixed 9 v) = '','' @ toFixed 9 v"
      by (simp add: dropWhile_append2)
  qed
  have "nodeKey a b = nodeKey c d \<longleftrightarrow> toFixed 9 a = toFixed 9 c \<and> toFixed 9 b = toFixed 9 d"
  proof
    assume e: "nodeKey a b = nodeKey c d"
    have "toFixed 9 a = toFixed 9 c" using arg_cong [OF e, of "takeWhile (\<lambda>c. c \<noteq> CHR '','')"]
      unfolding nodeKey_def tw .
    moreover have "toFixed 9 b = toFixed 9 d" using arg_cong [OF e, of "dropWhile (\<lambda>c. c \<noteq> CHR '','')"]
      unfolding nodeKey_def dw by simp
    ultimately show "toFixed 9 a = toFixed 9 c \<and> toFixed 9 b = toFixed 9 d" ..
  qed (simp add: nodeKey_def)
  then show ?thesis by (simp add: toFixed_eq_iff conj_ac)
qed

section \<open>The graph builder keeps its invariants\<close>

lemma binv_map: "binv st \<Longrightarrow> snd st k = Some i \<longleftrightarrow> i < length (fst st) \<and> keyOf (fst st ! i) = k"
  unfolding binv_def by blast

lemma binv_id: "binv st \<Longrightarrow> i < length (fst st) \<Longrightarrow> node_id (fst st ! i) = i"
  unfolding binv_def by blast

lemma binv_edge:
  "binv st \<Longrightarrow> i < length (fst st) \<Longrightarrow> e \<in> set (edges (fst st ! i)) \<Longrightarrow>
     to e < length (fst st) \<and> \<lparr>to = i, cost = cost e\<rparr> \<in> set (edges (fst st ! to e))"
  unfolding binv_def by blast

lemma bext_refl: "bext st st" by (simp add: bext_def)

lemma bext_trans:
  assumes "bext a b" "bext b c"
  shows "bext a c"
  unfolding bext_def
proof (intro conjI allI impI)
  show "length (fst a) \<le> length (fst c)" using assms by (simp add: bext_def)
next
  fix i assume i: "i < length (fst a)"
  then have j: "i < length (fst b)" using assms(1) by (simp add: bext_def)
  have 1: "keyOf (fst b ! i) = keyOf (fst a ! i)" "set (edges (fst a ! i)) \<subseteq> set (edges (fst b ! i))"
    using assms(1) i by (simp_all add: bext_def)
  have 2: "keyOf (fst c ! i) = keyOf (fst b ! i)" "set (edges (fst b ! i)) \<subseteq> set (edges (fst c ! i))"
    using assms(2) j by (simp_all add: bext_def)
  show "keyOf (fst c ! i) = keyOf (fst a ! i)" using 1 2 by simp
  show "set (edges (fst a ! i)) \<subseteq> set (edges (fst c ! i))" using 1 2 by blast
qed

lemma getOrCreateNode_props:
  assumes "binv st" "getOrCreateNode st la lo = (st', i)"
  shows "binv st' \<and> bext st st' \<and> i < length (fst st') \<and> keyOf (fst st' ! i) = nodeKey la lo
    \<and> (\<forall>j < length (fst st'). edges (fst st' ! j) = (if j < length (fst st) then edges (fst st ! j) else []))"
proof -
  obtain ns m where st: "st = (ns, m)" by (cases st)
  show ?thesis
  proof (cases "m (nodeKey la lo)")
    case None
    then have st': "st' = (ns @ [\<lparr>node_id = length ns, lat = la, lng = lo, edges = []\<rparr>], m(nodeKey la lo \<mapsto> length ns))"
      and i: "i = length ns"
      using assms(2) by (auto simp: getOrCreateNode_def st)
    have nokey: "\<And>j. j < length ns \<Longrightarrow> keyOf (ns ! j) \<noteq> nodeKey la lo"
      using assms(1) None unfolding binv_def st by (metis fst_conv snd_conv option.distinct(1))
    have "binv st'"
      using assms(1) nokey unfolding binv_def st st'
      apply (intro conjI allI impI)
        apply (auto simp: nth_append keyOf_def less_Suc_eq split: if_splits)
      done
    moreover have "bext st st'" unfolding bext_def st st' by (simp add: nth_append)
    ultimately show ?thesis
      by (simp add: st st' i keyOf_def nth_append)
  next
    case (Some j)
    then have "st' = st" "i = j" using assms(2) by (auto simp: getOrCreateNode_def st)
    then show ?thesis
      using assms(1) Some unfolding binv_def st by (auto simp: bext_refl)
  qed
qed

lemma pushEdge_length [simp]: "length (pushEdge ns i e) = length ns"
  by (simp add: pushEdge_def)

lemma pushEdge_nth:
  "j < length ns \<Longrightarrow> pushEdge ns i e ! j = (if j = i then (ns ! j)\<lparr>edges := edges (ns ! j) @ [e]\<rparr> else ns ! j)"
  by (simp add: pushEdge_def nth_list_update)

lemma pushEdge_key [simp]: "j < length ns \<Longrightarrow> keyOf (pushEdge ns i e ! j) = keyOf (ns ! j)"
  by (simp add: pushEdge_nth keyOf_def)

lemma pushEdge_id [simp]: "j < length ns \<Longrightarrow> node_id (pushEdge ns i e ! j) = node_id (ns ! j)"
  by (simp add: pushEdge_nth)

lemma pushEdge_edges:
  "j < length ns \<Longrightarrow> edges (pushEdge ns i e ! j) = edges (ns ! j) @ (if j = i then [e] else [])"
  by (simp add: pushEdge_nth)

text \<open>What one coordinate pair does to the builder.\<close>

lemma addPair_props:
  assumes inv: "binv st"
  shows "\<exists>u v. u < length (fst (addPair c st p q)) \<and> v < length (fst (addPair c st p q)) \<and>
           keyOf (fst (addPair c st p q) ! u) = coordKey p \<and>
           keyOf (fst (addPair c st p q) ! v) = coordKey q \<and>
           binv (addPair c st p q) \<and> bext st (addPair c st p q) \<and>
           (\<forall>j < length (fst (addPair c st p q)).
              edges (fst (addPair c st p q) ! j) =
                (if j < length (fst st) then edges (fst st ! j) else []) @
                (if j = u then [\<lparr>to = v, cost = haversineDistance (fst p) (snd p) (fst q) (snd q) * c\<rparr>] else []) @
                (if j = v then [\<lparr>to = u, cost = haversineDistance (fst p) (snd p) (fst q) (snd q) * c\<rparr>] else []))"
proof -
  define d where "d = haversineDistance (fst p) (snd p) (fst q) (snd q) * c"
  obtain st1 u where g1: "getOrCreateNode st (fst p) (snd p) = (st1, u)" by (cases "getOrCreateNode st (fst p) (snd p)")
  obtain st2 v where g2: "getOrCreateNode st1 (fst q) (snd q) = (st2, v)" by (cases "getOrCreateNode st1 (fst q) (snd q)")
  note p1 = getOrCreateNode_props [OF inv g1]
  then have inv1: "binv st1" by simp
  note p2 = getOrCreateNode_props [OF inv1 g2]
  define ns' where "ns' = pushEdge (pushEdge (fst st2) u \<lparr>to = v, cost = d\<rparr>) v \<lparr>to = u, cost = d\<rparr>"
  have res: "addPair c st p q = (ns', snd st2)"
    by (simp add: addPair_def g1 g2 Let_def ns'_def d_def)
  have len: "length ns' = length (fst st2)" by (simp add: ns'_def)
  have l12: "length (fst st) \<le> length (fst st1)" "length (fst st1) \<le> length (fst st2)"
    using p1 p2 by (simp_all add: bext_def)
  have u: "u < length (fst st2)" and v: "v < length (fst st2)"
    using p1 p2 l12 by auto
  have keys: "\<And>j. j < length (fst st2) \<Longrightarrow> keyOf (ns' ! j) = keyOf (fst st2 ! j)"
    by (simp add: ns'_def)
  have ids: "\<And>j. j < length (fst st2) \<Longrightarrow> node_id (ns' ! j) = node_id (fst st2 ! j)"
    by (simp add: ns'_def)
  have ed2: "\<And>j. j < length (fst st2) \<Longrightarrow> edges (ns' ! j) =
      edges (fst st2 ! j) @ (if j = u then [\<lparr>to = v, cost = d\<rparr>] else []) @ (if j = v then [\<lparr>to = u, cost = d\<rparr>] else [])"
    by (simp add: ns'_def pushEdge_edges)
  have ed0: "\<And>j. j < length (fst st2) \<Longrightarrow> edges (fst st2 ! j) = (if j < length (fst st) then edges (fst st ! j) else [])"
    using p1 p2 l12 by auto
  have ku: "keyOf (fst st2 ! u) = coordKey p"
    using p1 p2 by (auto simp: bext_def coordKey_def)
  have kv: "keyOf (fst st2 ! v) = coordKey q"
    using p2 by (simp add: coordKey_def)
  have inv2: "binv st2" using p2 by simp
  have b: "binv (ns', snd st2)"
    unfolding binv_def
  proof (intro conjI allI impI ballI)
    fix k i
    show "snd (ns', snd st2) k = Some i \<longleftrightarrow> i < length (fst (ns', snd st2)) \<and> keyOf (fst (ns', snd st2) ! i) = k"
      using binv_map [OF inv2, of k i] keys [of i] by (auto simp: len)
  next
    fix i assume "i < length (fst (ns', snd st2))"
    then show "node_id (fst (ns', snd st2) ! i) = i"
      using binv_id [OF inv2, of i] ids [of i] by (simp add: len)
  next
    fix i e assume i: "i < length (fst (ns', snd st2))" and e: "e \<in> set (edges (fst (ns', snd st2) ! i))"
    from i have i2: "i < length (fst st2)" by (simp add: len)
    from e consider (old) "e \<in> set (edges (fst st2 ! i))" | (e1) "i = u" "e = \<lparr>to = v, cost = d\<rparr>"
      | (e2) "i = v" "e = \<lparr>to = u, cost = d\<rparr>"
      by (auto simp: ed2 [OF i2] split: if_splits)
    then show "to e < length (fst (ns', snd st2))"
      using binv_edge [OF inv2 i2, of e] u v by cases (auto simp: len)
  next
    fix i e assume i: "i < length (fst (ns', snd st2))" and e: "e \<in> set (edges (fst (ns', snd st2) ! i))"
    from i have i2: "i < length (fst st2)" by (simp add: len)
    from e consider (old) "e \<in> set (edges (fst st2 ! i))" | (e1) "i = u" "e = \<lparr>to = v, cost = d\<rparr>"
      | (e2) "i = v" "e = \<lparr>to = u, cost = d\<rparr>"
      by (auto simp: ed2 [OF i2] split: if_splits)
    then show "\<lparr>to = i, cost = cost e\<rparr> \<in> set (edges (fst (ns', snd st2) ! to e))"
    proof cases
      case old
      then have "to e < length (fst st2)" "\<lparr>to = i, cost = cost e\<rparr> \<in> set (edges (fst st2 ! to e))"
        using binv_edge [OF inv2 i2 old] by auto
      then show ?thesis by (simp add: ed2)
    next
      case e1 then show ?thesis using u v by (simp add: ed2)
    next
      case e2 then show ?thesis using u v by (simp add: ed2)
    qed
  qed
  have x: "bext st (ns', snd st2)"
    unfolding bext_def
  proof (intro conjI allI impI)
    show "length (fst st) \<le> length (fst (ns', snd st2))" using l12 by (simp add: len)
  next
    fix i assume i: "i < length (fst st)"
    then have i1: "i < length (fst st1)" and i2: "i < length (fst st2)" using l12 by auto
    have "keyOf (fst st1 ! i) = keyOf (fst st ! i)" using p1 i by (simp add: bext_def)
    moreover have "keyOf (fst st2 ! i) = keyOf (fst st1 ! i)" using p2 i1 by (simp add: bext_def)
    ultimately show "keyOf (fst (ns', snd st2) ! i) = keyOf (fst st ! i)" using keys [OF i2] by simp
    show "set (edges (fst st ! i)) \<subseteq> set (edges (fst (ns', snd st2) ! i))"
      using i by (simp add: ed2 [OF i2] ed0 [OF i2])
  qed
  show ?thesis
    unfolding res d_def [symmetric]
    apply (rule exI [of _ u], rule exI [of _ v])
    using u v b x by (simp add: len keys ku kv ed2 ed0)
qed

lemma hasPair_bext:
  assumes "hasPair st k1 k2 c" "bext st st'"
  shows "hasPair st' k1 k2 c"
proof -
  from assms(1) obtain u v where uv: "u < length (fst st)" "v < length (fst st)"
    "keyOf (fst st ! u) = k1" "keyOf (fst st ! v) = k2"
    "\<lparr>to = v, cost = c\<rparr> \<in> set (edges (fst st ! u))" "\<lparr>to = u, cost = c\<rparr> \<in> set (edges (fst st ! v))"
    unfolding hasPair_def by blast
  have "u < length (fst st')" "v < length (fst st')" using uv assms(2) by (simp_all add: bext_def)
  moreover have "keyOf (fst st' ! u) = k1" "keyOf (fst st' ! v) = k2"
    using uv assms(2) by (simp_all add: bext_def)
  moreover have "\<lparr>to = v, cost = c\<rparr> \<in> set (edges (fst st' ! u))"
    using uv(1,5) assms(2) unfolding bext_def by blast
  moreover have "\<lparr>to = u, cost = c\<rparr> \<in> set (edges (fst st' ! v))"
    using uv(2,6) assms(2) unfolding bext_def by blast
  ultimately show ?thesis unfolding hasPair_def by blast
qed

lemma addPair_binv: "binv st \<Longrightarrow> binv (addPair c st p q)"
  using addPair_props [of st c p q] by blast

lemma addPair_bext: "binv st \<Longrightarrow> bext st (addPair c st p q)"
  using addPair_props [of st c p q] by blast

lemma addPair_hasPair:
  assumes "binv st"
  shows "hasPair (addPair c st p q) (coordKey p) (coordKey q) (hav p q * c)"
proof -
  from addPair_props [OF assms, of c p q] obtain u v where
    uv: "u < length (fst (addPair c st p q))" "v < length (fst (addPair c st p q))"
      "keyOf (fst (addPair c st p q) ! u) = coordKey p" "keyOf (fst (addPair c st p q) ! v) = coordKey q"
    and ed: "\<forall>j < length (fst (addPair c st p q)).
              edges (fst (addPair c st p q) ! j) =
                (if j < length (fst st) then edges (fst st ! j) else []) @
                (if j = u then [\<lparr>to = v, cost = haversineDistance (fst p) (snd p) (fst q) (snd q) * c\<rparr>] else []) @
                (if j = v then [\<lparr>to = u, cost = haversineDistance (fst p) (snd p) (fst q) (snd q) * c\<rparr>] else [])"
    by blast
  have "\<lparr>to = v, cost = hav p q * c\<rparr> \<in> set (edges (fst (addPair c st p q) ! u))"
    using ed uv(1) by (simp add: hav_def)
  moreover have "\<lparr>to = u, cost = hav p q * c\<rparr> \<in> set (edges (fst (addPair c st p q) ! v))"
    using ed uv(2) by (simp add: hav_def)
  ultimately show ?thesis unfolding hasPair_def using uv by blast
qed

lemma addPair_pinv:
  assumes inv: "binv st" and p: "pinv P st"
    and new: "P (coordKey p) (coordKey q) (hav p q * c)" "P (coordKey q) (coordKey p) (hav p q * c)"
  shows "pinv P (addPair c st p q)"
proof -
  let ?st = "addPair c st p q"
  from addPair_props [OF inv, of c p q] obtain u v where
    uv: "u < length (fst ?st)" "v < length (fst ?st)"
      "keyOf (fst ?st ! u) = coordKey p" "keyOf (fst ?st ! v) = coordKey q"
    and ext: "bext st ?st"
    and ed: "\<forall>j < length (fst ?st).
              edges (fst ?st ! j) =
                (if j < length (fst st) then edges (fst st ! j) else []) @
                (if j = u then [\<lparr>to = v, cost = haversineDistance (fst p) (snd p) (fst q) (snd q) * c\<rparr>] else []) @
                (if j = v then [\<lparr>to = u, cost = haversineDistance (fst p) (snd p) (fst q) (snd q) * c\<rparr>] else [])"
    by blast
  show ?thesis
    unfolding pinv_def
  proof (intro allI impI ballI)
    fix i e assume i: "i < length (fst ?st)" and e: "e \<in> set (edges (fst ?st ! i))"
    from e ed i consider (old) "i < length (fst st)" "e \<in> set (edges (fst st ! i))"
      | (e1) "i = u" "e = \<lparr>to = v, cost = hav p q * c\<rparr>"
      | (e2) "i = v" "e = \<lparr>to = u, cost = hav p q * c\<rparr>"
      by (auto simp: hav_def split: if_splits)
    then show "P (keyOf (fst ?st ! i)) (keyOf (fst ?st ! to e)) (cost e)"
    proof cases
      case old
      then have t: "to e < length (fst st)" using binv_edge [OF inv] by blast
      have "P (keyOf (fst st ! i)) (keyOf (fst st ! to e)) (cost e)"
        using p old unfolding pinv_def by blast
      moreover have "keyOf (fst ?st ! i) = keyOf (fst st ! i)" using ext old(1) by (simp add: bext_def)
      moreover have "keyOf (fst ?st ! to e) = keyOf (fst st ! to e)" using ext t by (simp add: bext_def)
      ultimately show ?thesis by simp
    next
      case e1 then show ?thesis using uv new by simp
    next
      case e2 then show ?thesis using uv new by simp
    qed
  qed
qed

lemma addCoords_binv: "binv st \<Longrightarrow> binv (addCoords c st cs) \<and> bext st (addCoords c st cs)"
proof (induction c st cs rule: addCoords.induct)
  case (1 c st p q rest)
  have b: "binv (addPair c st p q)" using 1(2) by (rule addPair_binv)
  have "bext st (addPair c st p q)" using 1(2) by (rule addPair_bext)
  with 1(1) [OF b] show ?case by (auto intro: bext_trans)
qed (simp_all add: bext_refl)

lemma addCoords_hasPair:
  "binv st \<Longrightarrow> Suc i < length cs \<Longrightarrow>
     hasPair (addCoords c st cs) (coordKey (cs ! i)) (coordKey (cs ! Suc i)) (hav (cs ! i) (cs ! Suc i) * c)"
proof (induction c st cs arbitrary: i rule: addCoords.induct)
  case (1 c st p q rest)
  have b: "binv (addPair c st p q)" using 1(2) by (rule addPair_binv)
  show ?case
  proof (cases i)
    case 0
    have "hasPair (addPair c st p q) (coordKey p) (coordKey q) (hav p q * c)"
      using 1(2) by (rule addPair_hasPair)
    then have "hasPair (addCoords c (addPair c st p q) (q # rest)) (coordKey p) (coordKey q) (hav p q * c)"
      using addCoords_binv [OF b] hasPair_bext by blast
    then show ?thesis using 0 by simp
  next
    case (Suc j)
    then have "Suc j < length (q # rest)" using 1(3) by simp
    from 1(1) [OF b this] show ?thesis using Suc by simp
  qed
qed simp_all

lemma addCoords_pinv:
  "binv st \<Longrightarrow> pinv P st \<Longrightarrow>
   (\<And>i. Suc i < length cs \<Longrightarrow>
      P (coordKey (cs ! i)) (coordKey (cs ! Suc i)) (hav (cs ! i) (cs ! Suc i) * c) \<and>
      P (coordKey (cs ! Suc i)) (coordKey (cs ! i)) (hav (cs ! i) (cs ! Suc i) * c)) \<Longrightarrow>
   pinv P (addCoords c st cs)"
proof (induction c st cs rule: addCoords.induct)
  case (1 c st p q rest)
  have b: "binv (addPair c st p q)" using 1(2) by (rule addPair_binv)
  have "P (coordKey p) (coordKey q) (hav p q * c) \<and> P (coordKey q) (coordKey p) (hav p q * c)"
    using 1(4) [of 0] by simp
  then have pp: "pinv P (addPair c st p q)" using addPair_pinv [OF 1(2,3)] by blast
  have "\<And>i. Suc i < length (q # rest) \<Longrightarrow>
      P (coordKey ((q # rest) ! i)) (coordKey ((q # rest) ! Suc i)) (hav ((q # rest) ! i) ((q # rest) ! Suc i) * c) \<and>
      P (coordKey ((q # rest) ! Suc i)) (coordKey ((q # rest) ! i)) (hav ((q # rest) ! i) ((q # rest) ! Suc i) * c)"
    using 1(4) [of "Suc i" for i] by simp
  from 1(1) [OF b pp this] show ?case by simp
qed simp_all

lemma addSegment_binv: "binv st \<Longrightarrow> binv (addSegment tall st seg) \<and> bext st (addSegment tall st seg)"
  by (simp add: addSegment_def addCoords_binv bext_refl)

lemma foldl_addSegment_binv:
  "binv st \<Longrightarrow> binv (foldl (addSegment tall) st segs) \<and> bext st (foldl (addSegment tall) st segs)"
proof (induction segs arbitrary: st)
  case Nil
  then show ?case by (simp add: bext_refl)
next
  case (Cons seg segs)
  have "binv (addSegment tall st seg)" "bext st (addSegment tall st seg)"
    using addSegment_binv [OF Cons.prems] by simp_all
  with Cons.IH [of "addSegment tall st seg"] show ?case by (auto intro: bext_trans)
qed

lemma binv_empty: "binv ([], Map.empty)"
  by (simp add: binv_def)

lemma buildState_binv: "binv (buildState segs tall)"
  unfolding buildState_def using foldl_addSegment_binv [OF binv_empty] by blast

lemma foldl_addSegment_hasPair:
  assumes "binv st" "seg \<in> set segs" "status seg \<noteq> blocked" "Suc i < length (coordinates seg)"
  shows "hasPair (foldl (addSegment tall) st segs)
           (coordKey (coordinates seg ! i)) (coordKey (coordinates seg ! Suc i)) (pairCost tall seg i)"
  using assms
proof (induction segs arbitrary: st)
  case Nil
  then show ?case by simp
next
  case (Cons s segs)
  have b: "binv (addSegment tall st s)" using addSegment_binv [OF Cons.prems(1)] by simp
  show ?case
  proof (cases "s = seg")
    case True
    have "hasPair (addSegment tall st s)
           (coordKey (coordinates seg ! i)) (coordKey (coordinates seg ! Suc i)) (pairCost tall seg i)"
      using addCoords_hasPair [OF Cons.prems(1,4)] Cons.prems(3) True
      by (simp add: addSegment_def pairCost_def hav_def)
    then show ?thesis using foldl_addSegment_binv [OF b] hasPair_bext by fastforce
  next
    case False
    then have "seg \<in> set segs" using Cons.prems(2) by simp
    from Cons.IH [OF b this Cons.prems(3,4)] show ?thesis by simp
  qed
qed

lemma foldl_addSegment_pinv:
  assumes "binv st" "pinv (edgeFrom tall all) st" "set segs \<subseteq> set all"
  shows "pinv (edgeFrom tall all) (foldl (addSegment tall) st segs)"
  using assms
proof (induction segs arbitrary: st)
  case Nil
  then show ?case by simp
next
  case (Cons s segs)
  have b: "binv (addSegment tall st s)" using addSegment_binv [OF Cons.prems(1)] by simp
  have s: "s \<in> set all" using Cons.prems(3) by simp
  have "pinv (edgeFrom tall all) (addSegment tall st s)"
  proof (cases "status s = blocked")
    case True
    then show ?thesis using Cons.prems(2) by (simp add: addSegment_def)
  next
    case False
    have "\<And>i. Suc i < length (coordinates s) \<Longrightarrow>
       edgeFrom tall all (coordKey (coordinates s ! i)) (coordKey (coordinates s ! Suc i))
          (hav (coordinates s ! i) (coordinates s ! Suc i) * baseCostOf tall (status s)) \<and>
       edgeFrom tall all (coordKey (coordinates s ! Suc i)) (coordKey (coordinates s ! i))
          (hav (coordinates s ! i) (coordinates s ! Suc i) * baseCostOf tall (status s))"
      unfolding edgeFrom_def using s False by (auto simp: pairCost_def hav_def)
    from addCoords_pinv [OF Cons.prems(1,2), of "coordinates s" "baseCostOf tall (status s)", OF this]
    show ?thesis using False by (simp add: addSegment_def)
  qed
  from Cons.IH [OF b this] Cons.prems(3) show ?case by simp
qed

lemma buildState_pinv: "pinv (edgeFrom tall segs) (buildState segs tall)"
  unfolding buildState_def
  by (rule foldl_addSegment_pinv [OF binv_empty]) (simp_all add: pinv_def)

lemma foldl_addSegment_filter:
  "foldl (addSegment tall) st (filter (\<lambda>s. status s \<noteq> blocked) segs) = foldl (addSegment tall) st segs"
  by (induction segs arbitrary: st) (simp_all add: addSegment_def)

section \<open>Paths and their reversal\<close>

lemmas build_eval = buildGraph_def buildState_def addSegment_def addPair_def getOrCreateNode_def
  pushEdge_def baseCostOf_def nodeKey_eq_iff fixedVal_def Let_def

lemma isPath_start: "isPath g u es v \<Longrightarrow> u < length (nodes g)"
  by (cases es) auto

lemma isPath_append:
  "isPath g u (xs @ ys) v \<longleftrightarrow> (\<exists>w. isPath g u xs w \<and> isPath g w ys v)"
  by (induction xs arbitrary: u) (auto dest: isPath_start)

lemma isPath_end: "isPath g u es v \<Longrightarrow> v < length (nodes g)"
  by (induction es arbitrary: u) auto


lemma pathCost_revPath: "pathCost (revPath u es) = pathCost es"
  by (induction es arbitrary: u) (simp_all add: pathCost_def)

lemma isPath_revPath:
  assumes sym: "\<And>u e. u < length (nodes g) \<Longrightarrow> e \<in> set (edges (nodes g ! u)) \<Longrightarrow>
                  to e < length (nodes g) \<and> \<lparr>to = u, cost = cost e\<rparr> \<in> set (edges (nodes g ! to e))"
  shows "isPath g a es b \<Longrightarrow> isPath g b (revPath a es) a"
proof (induction es arbitrary: a)
  case Nil
  then show ?case by simp
next
  case (Cons e es)
  then have a: "a < length (nodes g)" and e: "e \<in> set (edges (nodes g ! a))" and r: "isPath g (to e) es b"
    by simp_all
  have "isPath g b (revPath (to e) es) (to e)" using Cons.IH [OF r] .
  moreover have "isPath g (to e) [\<lparr>to = a, cost = cost e\<rparr>] a"
    using sym [OF a e] a by simp
  ultimately show ?case by (auto simp: isPath_append)
qed

lemma buildGraph_edge:
  assumes "u < length (nodes (buildGraph segs tall))" "e \<in> set (edges (nodes (buildGraph segs tall) ! u))"
  shows "to e < length (nodes (buildGraph segs tall)) \<and>
         \<lparr>to = u, cost = cost e\<rparr> \<in> set (edges (nodes (buildGraph segs tall) ! to e))"
  using binv_edge [OF buildState_binv, of u segs tall e] assms by (simp add: buildGraph_def)


lemma buildGraph_example: "buildGraph [\<lparr>seg_id = ''b'', coordinates = [(0, 0), (0, 1)], properties = [], status = blocked\<rparr>,
        \<lparr>seg_id = ''p'', coordinates = [(0, 1), (0, 2)], properties = [], status = passable\<rparr>] False
  = \<lparr>nodes = [\<lparr>node_id = 0, lat = 0, lng = 1, edges = [\<lparr>to = 1, cost = haversineDistance 0 1 0 2\<rparr>]\<rparr>,
              \<lparr>node_id = 1, lat = 0, lng = 2, edges = [\<lparr>to = 0, cost = haversineDistance 0 1 0 2\<rparr>]\<rparr>]\<rparr>"
  by (simp add: build_eval)

section \<open>Picking the current node\<close>

lemma scoreLess_irrefl [simp]: "\<not> scoreLess a a"
  by (cases a) auto

lemma scoreLess_Fin_iff: "scoreLess (Fin x) sc \<longleftrightarrow> sc = Infinity \<or> (\<exists>y. sc = Fin y \<and> x < y)"
  by (cases sc) auto




section \<open>One relaxation\<close>


lemma improved_simps [simp]:
  "cameFrom (improved g goal cur e a st) = (cameFrom st)(to e \<mapsto> cur)"
  "gScore (improved g goal cur e a st) = (gScore st)(to e \<mapsto> Fin (a + cost e))"
  "fScore (improved g goal cur e a st) = (fScore st)(to e \<mapsto> Fin (a + cost e + hOf g goal (to e)))"
  "openSet (improved g goal cur e a st) = setAdd (to e) (openSet st)"
  by (simp_all add: improved_def)

lemma set_setAdd [simp]: "set (setAdd x xs) = insert x (set xs)"
  by (auto simp: setAdd_def)

lemma distinct_setAdd [simp]: "distinct (setAdd x xs) = distinct xs"
  by (auto simp: setAdd_def)










section \<open>Simple paths that witness the scores\<close>


lemma length_pathNodes [simp]: "length (pathNodes s es) = Suc (length es)"
  by (induction es arbitrary: s) simp_all

lemma isPath_costs: "nonnegCosts g \<Longrightarrow> isPath g u es v \<Longrightarrow> e \<in> set es \<Longrightarrow> 0 \<le> cost e"
  by (induction es arbitrary: u) (auto simp: nonnegCosts_def)

lemma pathCost_nonneg: "nonnegCosts g \<Longrightarrow> isPath g u es v \<Longrightarrow> 0 \<le> pathCost es"
  unfolding pathCost_def by (rule sum_list_nonneg) (auto dest: isPath_costs)





section \<open>The measure of progress\<close>

lemma isPath_edges:
  "isPath g u es v \<Longrightarrow> e \<in> set es \<Longrightarrow> \<exists>i < length (nodes g). e \<in> set (edges (nodes g ! i))"
  by (induction es arbitrary: u) auto

lemma isPath_nodes: "isPath g u es v \<Longrightarrow> n \<in> set (pathNodes u es) \<Longrightarrow> n < length (nodes g)"
  by (induction es arbitrary: u) auto

lemma simplePath_length:
  assumes "simplePath g s es n"
  shows "length es \<le> length (nodes g)"
proof -
  have "set (pathNodes s es) \<subseteq> {..< length (nodes g)}"
    using assms isPath_nodes unfolding simplePath_def by blast
  then have "card (set (pathNodes s es)) \<le> card {..< length (nodes g)}"
    by (intro card_mono) simp_all
  moreover have "card (set (pathNodes s es)) = Suc (length es)"
    using assms distinct_card unfolding simplePath_def by fastforce
  ultimately show ?thesis by simp
qed

lemma finite_simpleCosts: "finite (simpleCosts g s)"
proof -
  let ?E = "\<Union>i < length (nodes g). set (edges (nodes g ! i))"
  have "finite ?E" by simp
  then have fin: "finite {es. set es \<subseteq> ?E \<and> length es \<le> length (nodes g)}"
    by (rule finite_lists_length_le)
  have "{es. \<exists>n. simplePath g s es n} \<subseteq> {es. set es \<subseteq> ?E \<and> length es \<le> length (nodes g)}"
  proof
    fix es assume "es \<in> {es. \<exists>n. simplePath g s es n}"
    then obtain n where n: "simplePath g s es n" by blast
    then have "set es \<subseteq> ?E" using isPath_edges unfolding simplePath_def by fastforce
    then show "es \<in> {es. set es \<subseteq> ?E \<and> length es \<le> length (nodes g)}"
      using simplePath_length [OF n] by simp
  qed
  then have "finite {es. \<exists>n. simplePath g s es n}" using fin by (rule finite_subset)
  then show ?thesis unfolding simpleCosts_def by simp
qed

lemma finite_below [simp]: "finite (below g s st n)"
  unfolding below_def using finite_simpleCosts by simp


section \<open>Relaxed edges and the open goal\<close>




section \<open>The loop over the edges of the current node\<close>


section \<open>The main loop stops\<close>





lemma pathNodes_tl: "pathNodes s es = s # map to es"
  by (induction es arbitrary: s) simp_all




section \<open>What the search returns\<close>






lemma hOf_goal [simp]: "hOf g goal goal = 0"
  by (simp add: hOf_def heuristic_def haversine_self)






section \<open>Built graphs are well formed and have non-negative costs\<close>




section \<open>The nearest-node scan\<close>








section \<open>Optimality\<close>


lemma mPerDeg_pos: "0 < mPerDeg"
  by (simp add: mPerDeg_def)

lemma haversine_equator_deg: "\<bar>y - x\<bar> < 180 \<Longrightarrow> haversineDistance 0 x 0 y = mPerDeg * \<bar>y - x\<bar>"
  by (simp add: haversine_equator mPerDeg_def)


lemmas astar_eval = astar_def astarCost_def astarSearch_def astarInit_def astarLoop.simps reconstruct.simps
  relaxEdge_def pickCurrent_def pickStep_def setAdd_def heuristic_def Let_def




lemma consistent_detour:
  "consistent \<lparr>nodes = [\<lparr>node_id = 0, lat = 0, lng = 0, edges = [\<lparr>to = 1, cost = mPerDeg * 0.003\<rparr>, \<lparr>to = 2, cost = mPerDeg * 0.0005\<rparr>]\<rparr>,
              \<lparr>node_id = 1, lat = 0, lng = 0.001, edges = [\<lparr>to = 0, cost = mPerDeg * 0.003\<rparr>, \<lparr>to = 2, cost = mPerDeg * 0.0015\<rparr>]\<rparr>,
              \<lparr>node_id = 2, lat = 0, lng = - 0.0005, edges = [\<lparr>to = 0, cost = mPerDeg * 0.0005\<rparr>, \<lparr>to = 1, cost = mPerDeg * 0.0015\<rparr>]\<rparr>]\<rparr> 1"
  unfolding consistent_def
proof (intro allI impI)
  fix u assume "u < length (nodes \<lparr>nodes = [\<lparr>node_id = 0, lat = 0, lng = 0, edges = [\<lparr>to = 1, cost = mPerDeg * 0.003\<rparr>, \<lparr>to = 2, cost = mPerDeg * 0.0005\<rparr>]\<rparr>,
              \<lparr>node_id = 1, lat = 0, lng = 0.001, edges = [\<lparr>to = 0, cost = mPerDeg * 0.003\<rparr>, \<lparr>to = 2, cost = mPerDeg * 0.0015\<rparr>]\<rparr>,
              \<lparr>node_id = 2, lat = 0, lng = - 0.0005, edges = [\<lparr>to = 0, cost = mPerDeg * 0.0005\<rparr>, \<lparr>to = 1, cost = mPerDeg * 0.0015\<rparr>]\<rparr>]\<rparr>)"
  then have "u = 0 \<or> u = 1 \<or> u = 2" by auto
  then show "\<forall>e \<in> set (edges (nodes \<lparr>nodes = [\<lparr>node_id = 0, lat = 0, lng = 0, edges = [\<lparr>to = 1, cost = mPerDeg * 0.003\<rparr>, \<lparr>to = 2, cost = mPerDeg * 0.0005\<rparr>]\<rparr>,
              \<lparr>node_id = 1, lat = 0, lng = 0.001, edges = [\<lparr>to = 0, cost = mPerDeg * 0.003\<rparr>, \<lparr>to = 2, cost = mPerDeg * 0.0015\<rparr>]\<rparr>,
              \<lparr>node_id = 2, lat = 0, lng = - 0.0005, edges = [\<lparr>to = 0, cost = mPerDeg * 0.0005\<rparr>, \<lparr>to = 1, cost = mPerDeg * 0.0015\<rparr>]\<rparr>]\<rparr> ! u)).
        hOf \<lparr>nodes = [\<lparr>node_id = 0, lat = 0, lng = 0, edges = [\<lparr>to = 1, cost = mPerDeg * 0.003\<rparr>, \<lparr>to = 2, cost = mPerDeg * 0.0005\<rparr>]\<rparr>,
              \<lparr>node_id = 1, lat = 0, lng = 0.001, edges = [\<lparr>to = 0, cost = mPerDeg * 0.003\<rparr>, \<lparr>to = 2, cost = mPerDeg * 0.0015\<rparr>]\<rparr>,
              \<lparr>node_id = 2, lat = 0, lng = - 0.0005, edges = [\<lparr>to = 0, cost = mPerDeg * 0.0005\<rparr>, \<lparr>to = 1, cost = mPerDeg * 0.0015\<rparr>]\<rparr>]\<rparr> 1 u
        \<le> cost e + hOf \<lparr>nodes = [\<lparr>node_id = 0, lat = 0, lng = 0, edges = [\<lparr>to = 1, cost = mPerDeg * 0.003\<rparr>, \<lparr>to = 2, cost = mPerDeg * 0.0005\<rparr>]\<rparr>,
              \<lparr>node_id = 1, lat = 0, lng = 0.001, edges = [\<lparr>to = 0, cost = mPerDeg * 0.003\<rparr>, \<lparr>to = 2, cost = mPerDeg * 0.0015\<rparr>]\<rparr>,
              \<lparr>node_id = 2, lat = 0, lng = - 0.0005, edges = [\<lparr>to = 0, cost = mPerDeg * 0.0005\<rparr>, \<lparr>to = 1, cost = mPerDeg * 0.0015\<rparr>]\<rparr>]\<rparr> 1 (to e)"
    using mPerDeg_pos by (auto simp: hOf_def heuristic_def haversine_equator_deg haversine_self)
qed



section \<open>Back pointers under one relaxation\<close>






















section \<open>Exactness through the main loop\<close>


lemma gv_open [simp]: "gv (st\<lparr>openSet := xs\<rparr>) = gv st"
  by (rule ext) (simp add: gv_def)

lemma fval_open [simp]: "fval g goal (st\<lparr>openSet := xs\<rparr>) = fval g goal st"
  by (rule ext) (simp add: fval_def)











section \<open>Where the coordinates of the nodes come from\<close>


lemma pushEdge_coord [simp]:
  "j < length ns \<Longrightarrow> lat (pushEdge ns i e ! j) = lat (ns ! j)"
  "j < length ns \<Longrightarrow> lng (pushEdge ns i e ! j) = lng (ns ! j)"
  by (simp_all add: pushEdge_nth)








section \<open>The preference scenario\<close>

lemmas route_eval = routingEffect_def filteredSegments_def findNearestNode_def nearestStep_def
  nodesToLatLng_def calculateRouteDistance_def calculateETA_def

lemma scenario_graph_tall:
  assumes k: "nodeKey a1 a2 \<noteq> nodeKey b1 b2" "nodeKey a1 a2 \<noteq> nodeKey m1 m2" "nodeKey b1 b2 \<noteq> nodeKey m1 m2"
  shows "buildGraph [\<lparr>seg_id = i, coordinates = [(a1, a2), (b1, b2)], properties = pr, status = restricted\<rparr>,
               \<lparr>seg_id = j, coordinates = [(a1, a2), (m1, m2), (b1, b2)], properties = ps, status = passable\<rparr>] True
   = \<lparr>nodes = [\<lparr>node_id = 0, lat = a1, lng = a2,
                 edges = [\<lparr>to = 1, cost = haversineDistance a1 a2 b1 b2 * 0.5\<rparr>, \<lparr>to = 2, cost = haversineDistance a1 a2 m1 m2\<rparr>]\<rparr>,
               \<lparr>node_id = 1, lat = b1, lng = b2,
                 edges = [\<lparr>to = 0, cost = haversineDistance a1 a2 b1 b2 * 0.5\<rparr>, \<lparr>to = 2, cost = haversineDistance m1 m2 b1 b2\<rparr>]\<rparr>,
               \<lparr>node_id = 2, lat = m1, lng = m2,
                 edges = [\<lparr>to = 0, cost = haversineDistance a1 a2 m1 m2\<rparr>, \<lparr>to = 1, cost = haversineDistance m1 m2 b1 b2\<rparr>]\<rparr>]\<rparr>"
  using k k [symmetric]
  by (simp add: buildGraph_def buildState_def addSegment_def addPair_def getOrCreateNode_def
      pushEdge_def baseCostOf_def Let_def)

lemma scenario_graph_standard:
  assumes k: "nodeKey a1 a2 \<noteq> nodeKey b1 b2" "nodeKey a1 a2 \<noteq> nodeKey m1 m2" "nodeKey b1 b2 \<noteq> nodeKey m1 m2"
  shows "buildGraph [\<lparr>seg_id = j, coordinates = [(a1, a2), (m1, m2), (b1, b2)], properties = ps, status = passable\<rparr>] False
   = \<lparr>nodes = [\<lparr>node_id = 0, lat = a1, lng = a2,
                 edges = [\<lparr>to = 1, cost = haversineDistance a1 a2 m1 m2\<rparr>]\<rparr>,
               \<lparr>node_id = 1, lat = m1, lng = m2,
                 edges = [\<lparr>to = 0, cost = haversineDistance a1 a2 m1 m2\<rparr>, \<lparr>to = 2, cost = haversineDistance m1 m2 b1 b2\<rparr>]\<rparr>,
               \<lparr>node_id = 2, lat = b1, lng = b2,
                 edges = [\<lparr>to = 1, cost = haversineDistance m1 m2 b1 b2\<rparr>]\<rparr>]\<rparr>"
  using k k [symmetric]
  by (simp add: buildGraph_def buildState_def addSegment_def addPair_def getOrCreateNode_def
      pushEdge_def baseCostOf_def Let_def)


lemma scenario_tall:
  assumes k: "nodeKey a1 a2 \<noteq> nodeKey b1 b2" "nodeKey a1 a2 \<noteq> nodeKey m1 m2" "nodeKey b1 b2 \<noteq> nodeKey m1 m2"
    and d: "haversineDistance a1 a2 b1 b2 = 100"
    and e: "haversineDistance a1 a2 m1 m2 + haversineDistance m1 m2 b1 b2 = 250"
  shows "routingEffect
           [\<lparr>seg_id = i, coordinates = [(a1, a2), (b1, b2)], properties = pr, status = restricted\<rparr>,
            \<lparr>seg_id = j, coordinates = [(a1, a2), (m1, m2), (b1, b2)], properties = ps, status = passable\<rparr>]
           (Some (a1, a2)) (Some (b1, b2)) True True = Some (Route [(a1, a2), (b1, b2)] 100 (1 / 5))"
    and "astarCost (buildGraph (filteredSegments True
           [\<lparr>seg_id = i, coordinates = [(a1, a2), (b1, b2)], properties = pr, status = restricted\<rparr>,
            \<lparr>seg_id = j, coordinates = [(a1, a2), (m1, m2), (b1, b2)], properties = ps, status = passable\<rparr>]) True) 0 1
         = Some (Fin 50)"
proof -
  have n: "0 \<le> haversineDistance a1 a2 m1 m2" "0 \<le> haversineDistance m1 m2 b1 b2"
    "0 \<le> haversineDistance b1 b2 m1 m2"
    by (rule haversine_nonneg)+
  have s: "haversineDistance b1 b2 a1 a2 = 100" using d haversine_sym by simp
  have f: "filteredSegments True
           [\<lparr>seg_id = i, coordinates = [(a1, a2), (b1, b2)], properties = pr, status = restricted\<rparr>,
            \<lparr>seg_id = j, coordinates = [(a1, a2), (m1, m2), (b1, b2)], properties = ps, status = passable\<rparr>]
         = [\<lparr>seg_id = i, coordinates = [(a1, a2), (b1, b2)], properties = pr, status = restricted\<rparr>,
            \<lparr>seg_id = j, coordinates = [(a1, a2), (m1, m2), (b1, b2)], properties = ps, status = passable\<rparr>]"
    by (simp add: filteredSegments_def)
  show "routingEffect
           [\<lparr>seg_id = i, coordinates = [(a1, a2), (b1, b2)], properties = pr, status = restricted\<rparr>,
            \<lparr>seg_id = j, coordinates = [(a1, a2), (m1, m2), (b1, b2)], properties = ps, status = passable\<rparr>]
           (Some (a1, a2)) (Some (b1, b2)) True True = Some (Route [(a1, a2), (b1, b2)] 100 (1 / 5))"
    unfolding routingEffect_def f scenario_graph_tall [OF k]
    using n d e s
    by (simp add: findNearestNode_def nearestStep_def nodesToLatLng_def calculateRouteDistance_def
        calculateETA_def astar_eval haversine_self)
  show "astarCost (buildGraph (filteredSegments True
           [\<lparr>seg_id = i, coordinates = [(a1, a2), (b1, b2)], properties = pr, status = restricted\<rparr>,
            \<lparr>seg_id = j, coordinates = [(a1, a2), (m1, m2), (b1, b2)], properties = ps, status = passable\<rparr>]) True) 0 1
         = Some (Fin 50)"
    unfolding f scenario_graph_tall [OF k]
    using n d e s by (simp add: astar_eval haversine_self)
qed

lemma scenario_standard:
  assumes k: "nodeKey a1 a2 \<noteq> nodeKey b1 b2" "nodeKey a1 a2 \<noteq> nodeKey m1 m2" "nodeKey b1 b2 \<noteq> nodeKey m1 m2"
    and d: "haversineDistance a1 a2 b1 b2 = 100"
    and e: "haversineDistance a1 a2 m1 m2 + haversineDistance m1 m2 b1 b2 = 250"
    and p: "0 < haversineDistance m1 m2 b1 b2"
  shows "routingEffect
           [\<lparr>seg_id = i, coordinates = [(a1, a2), (b1, b2)], properties = pr, status = restricted\<rparr>,
            \<lparr>seg_id = j, coordinates = [(a1, a2), (m1, m2), (b1, b2)], properties = ps, status = passable\<rparr>]
           (Some (a1, a2)) (Some (b1, b2)) True False = Some (Route [(a1, a2), (m1, m2), (b1, b2)] 250 (1 / 2))"
    and "astarCost (buildGraph (filteredSegments False
           [\<lparr>seg_id = i, coordinates = [(a1, a2), (b1, b2)], properties = pr, status = restricted\<rparr>,
            \<lparr>seg_id = j, coordinates = [(a1, a2), (m1, m2), (b1, b2)], properties = ps, status = passable\<rparr>]) False) 0 2
         = Some (Fin 250)"
proof -
  have n: "0 \<le> haversineDistance a1 a2 m1 m2" "0 \<le> haversineDistance m1 m2 b1 b2"
    by (rule haversine_nonneg)+
  have s: "haversineDistance b1 b2 a1 a2 = 100" using d haversine_sym by simp
  have s2: "haversineDistance b1 b2 m1 m2 = haversineDistance m1 m2 b1 b2" by (rule haversine_sym)
  have f: "filteredSegments False
           [\<lparr>seg_id = i, coordinates = [(a1, a2), (b1, b2)], properties = pr, status = restricted\<rparr>,
            \<lparr>seg_id = j, coordinates = [(a1, a2), (m1, m2), (b1, b2)], properties = ps, status = passable\<rparr>]
         = [\<lparr>seg_id = j, coordinates = [(a1, a2), (m1, m2), (b1, b2)], properties = ps, status = passable\<rparr>]"
    by (simp add: filteredSegments_def)
  show "routingEffect
           [\<lparr>seg_id = i, coordinates = [(a1, a2), (b1, b2)], properties = pr, status = restricted\<rparr>,
            \<lparr>seg_id = j, coordinates = [(a1, a2), (m1, m2), (b1, b2)], properties = ps, status = passable\<rparr>]
           (Some (a1, a2)) (Some (b1, b2)) True False = Some (Route [(a1, a2), (m1, m2), (b1, b2)] 250 (1 / 2))"
    unfolding routingEffect_def f scenario_graph_standard [OF k]
    using n d e s p
    by (simp add: findNearestNode_def nearestStep_def nodesToLatLng_def calculateRouteDistance_def
        calculateETA_def astar_eval haversine_self s2)
  show "astarCost (buildGraph (filteredSegments False
           [\<lparr>seg_id = i, coordinates = [(a1, a2), (b1, b2)], properties = pr, status = restricted\<rparr>,
            \<lparr>seg_id = j, coordinates = [(a1, a2), (m1, m2), (b1, b2)], properties = ps, status = passable\<rparr>]) False) 0 2
         = Some (Fin 250)"
    unfolding f scenario_graph_standard [OF k]
    using n d e s p by (simp add: astar_eval haversine_self)
qed

text \<open>Points on the equator 100 m east and 75 m west of the origin.\<close>

lemma mPerDeg_bounds: "70000 < mPerDeg" "mPerDeg < 150000"
  using pi_ge_two pi_less_4 by (simp_all add: mPerDeg_def)

lemma metres_abs: "0 \<le> x \<Longrightarrow> x < 10000 \<Longrightarrow> \<bar>x / mPerDeg\<bar> < 180"
proof -
  assume x: "0 \<le> x" "x < 10000"
  have "x / mPerDeg < 10000 / 70000"
    using x mPerDeg_bounds(1) by (intro frac_less) simp_all
  then have "x / mPerDeg < 180" by linarith
  moreover have "0 \<le> x / mPerDeg" using x mPerDeg_pos by simp
  ultimately show ?thesis by (simp only: abs_of_nonneg)
qed

lemma exact_AB: "haversineDistance 0 0 0 (100 / mPerDeg) = 100"
  using haversine_equator_deg [of "100 / mPerDeg" 0] metres_abs [of 100] mPerDeg_pos by simp

lemma exact_AM: "haversineDistance 0 0 0 (- (75 / mPerDeg)) = 75"
  using haversine_equator_deg [of "- (75 / mPerDeg)" 0] metres_abs [of 75] mPerDeg_pos by simp

lemma exact_MB: "haversineDistance 0 (- (75 / mPerDeg)) 0 (100 / mPerDeg) = 175"
proof -
  have "100 / mPerDeg - - (75 / mPerDeg) = 175 / mPerDeg" by (simp add: field_simps)
  then show ?thesis
    using haversine_equator_deg [of "100 / mPerDeg" "- (75 / mPerDeg)"] metres_abs [of 175] mPerDeg_pos
    by simp
qed

lemma exact_keys:
  "nodeKey 0 0 \<noteq> nodeKey 0 (100 / mPerDeg)"
  "nodeKey 0 0 \<noteq> nodeKey 0 (- (75 / mPerDeg))"
  "nodeKey 0 (100 / mPerDeg) \<noteq> nodeKey 0 (- (75 / mPerDeg))"
proof -
  define y where "y = 100 / mPerDeg"
  have "1 \<le> y * 10 ^ 9" unfolding y_def using mPerDeg_bounds mPerDeg_pos by (simp add: field_simps)
  moreover have "0 < y" unfolding y_def using mPerDeg_pos by simp
  ultimately have "of_int 1 \<le> \<bar>y\<bar> * 10 ^ 9 + 1 / 2" by simp
  then have "1 \<le> \<lfloor>\<bar>y\<bar> * 10 ^ 9 + 1 / 2\<rfloor>" by (simp only: le_floor_iff)
  then have "fixedVal 9 (100 / mPerDeg) \<noteq> 0" unfolding fixedVal_def y_def by simp
  then show "nodeKey 0 0 \<noteq> nodeKey 0 (100 / mPerDeg)" by (simp add: nodeKey_eq_iff fixedVal_def)
  show "nodeKey 0 0 \<noteq> nodeKey 0 (- (75 / mPerDeg))" "nodeKey 0 (100 / mPerDeg) \<noteq> nodeKey 0 (- (75 / mPerDeg))"
    using mPerDeg_pos by (simp_all add: nodeKey_eq_iff)
qed

section \<open>Evaluating decimal renderings\<close>

lemma digits_small: "n < 10 \<Longrightarrow> digits n = [char_of (48 + n)]"
  by (subst digits.simps) simp

lemma digits_large: "10 \<le> n \<Longrightarrow> digits n = digits (n div 10) @ [char_of (48 + n mod 10)]"
  by (subst digits.simps) simp

lemma char_of_digit:
  "char_of (48 :: nat) = CHR ''0''" "char_of (49 :: nat) = CHR ''1''" "char_of (50 :: nat) = CHR ''2''"
  "char_of (51 :: nat) = CHR ''3''" "char_of (52 :: nat) = CHR ''4''" "char_of (53 :: nat) = CHR ''5''"
  "char_of (54 :: nat) = CHR ''6''" "char_of (55 :: nat) = CHR ''7''" "char_of (56 :: nat) = CHR ''8''"
  "char_of (57 :: nat) = CHR ''9''"
  by code_simp+

lemmas digits_eval = digits_small digits_large char_of_digit

section \<open>Splitting a line\<close>

lemma pieces_snoc:
  assumes "pieces line lineId segments" "2 \<le> length cs" "cs = take n (drop a line)"
  shows "pieces line lineId (segments @ [newSegment cs lineId (length segments)])"
  unfolding pieces_def
proof (intro allI impI)
  fix k assume k: "k < length (segments @ [newSegment cs lineId (length segments)])"
  show "(segments @ [newSegment cs lineId (length segments)]) ! k =
          newSegment (coordinates ((segments @ [newSegment cs lineId (length segments)]) ! k)) lineId k \<and>
        2 \<le> length (coordinates ((segments @ [newSegment cs lineId (length segments)]) ! k)) \<and>
        (\<exists>a n. coordinates ((segments @ [newSegment cs lineId (length segments)]) ! k) = take n (drop a line))"
  proof (cases "k < length segments")
    case True
    then show ?thesis using assms(1) unfolding pieces_def by (simp add: nth_append)
  next
    case False
    then have "k = length segments" using k by simp
    then show ?thesis using assms(2,3) by (auto simp: nth_append newSegment_def)
  qed
qed

lemma splitStep_pieces:
  assumes "pieces line lineId (fst acc)"
  shows "pieces line lineId (fst (splitStep line lineId acc x))"
proof -
  let ?i = "findNearestPointIndex line x"
  let ?cs = "take (?i + 1 - snd acc) (drop (snd acc) line)"
  show ?thesis
  proof (cases "snd acc < ?i \<and> 1 < length ?cs")
    case True
    then have "fst (splitStep line lineId acc x) = fst acc @ [newSegment ?cs lineId (length (fst acc))]"
      by (simp add: splitStep_def Let_def)
    moreover have "2 \<le> length ?cs" using True by simp
    ultimately show ?thesis using pieces_snoc [OF assms] by simp
  next
    case False
    then have "fst (splitStep line lineId acc x) = fst acc"
      by (auto simp: splitStep_def Let_def)
    then show ?thesis using assms by simp
  qed
qed

lemma foldl_splitStep_pieces:
  "pieces line lineId (fst acc) \<Longrightarrow> pieces line lineId (fst (foldl (splitStep line lineId) acc xs))"
  by (induction xs arbitrary: acc) (simp_all add: splitStep_pieces)

lemma split_nonempty_pieces:
  assumes "intersections \<noteq> []"
  shows "pieces line lineId (splitLineAtIntersections line intersections lineId)"
proof -
  let ?acc = "foldl (splitStep line lineId) ([], 0) (sort_key (getDistanceAlongLine line) intersections)"
  have p: "pieces line lineId (fst ?acc)"
    by (rule foldl_splitStep_pieces) (simp add: pieces_def)
  show ?thesis
  proof (cases "Suc (snd ?acc) < length line")
    case True
    then have l: "2 \<le> length (drop (snd ?acc) line)" by simp
    have d: "drop (snd ?acc) line = take (length line) (drop (snd ?acc) line)" by simp
    have "splitLineAtIntersections line intersections lineId =
        fst ?acc @ [newSegment (drop (snd ?acc) line) lineId (length (fst ?acc))]"
      using assms True l by (simp add: splitLineAtIntersections_def Let_def)
    then show ?thesis using pieces_snoc [OF p l d] by simp
  next
    case False
    then have "splitLineAtIntersections line intersections lineId = fst ?acc"
      using assms by (simp add: splitLineAtIntersections_def Let_def)
    then show ?thesis using p by simp
  qed
qed

lemma split_empty: "splitLineAtIntersections line [] lineId = [newSegment line lineId 0]"
  by (simp add: splitLineAtIntersections_def)

lemma split_indexed:
  assumes "k < length (splitLineAtIntersections line intersections lineId)"
  shows "splitLineAtIntersections line intersections lineId ! k =
     newSegment (coordinates (splitLineAtIntersections line intersections lineId ! k)) lineId k \<and>
     (\<exists>a n. coordinates (splitLineAtIntersections line intersections lineId ! k) = take n (drop a line))"
proof (cases "intersections = []")
  case True
  have k: "k = 0" using assms unfolding True split_empty by simp
  have "line = take (length line) (drop 0 line)" by simp
  then have "\<exists>a n. line = take n (drop a line)" by blast
  then show ?thesis unfolding True split_empty k by (simp add: newSegment_def)
next
  case False
  then show ?thesis using split_nonempty_pieces [OF False, of line lineId] assms unfolding pieces_def by blast
qed


lemma createDeterministicId_forms:
  "createDeterministicId cs lineId (Some k) =
     (if truthy lineId then the lineId @ ''_seg_'' @ digits k
      else ''seg_'' @ digits (nat \<bar>sint (foldl hashStep 0 (coordString cs))\<bar>))"
  by (cases lineId) (simp_all add: createDeterministicId_def truthy_def)

section \<open>The assembled segments\<close>

lemma initializeSegments_mem:
  "p \<in> set (fst (initializeSegments counter db features)) \<longleftrightarrow>
     (\<exists>feature \<in> set features. isRoad feature \<and>
        (\<exists>seg \<in> set (splitLineAtIntersections (latLng feature)
                      (filter (nearLine (latLng feature)) (allIntersectionsOf (filter isRoad features)))
                      (jsOr (map_of (feature_properties feature) ''@id'') (map_of (feature_properties feature) ''id''))).
           p = (seg\<lparr>properties := feature_properties feature\<rparr>, db (seg_id seg))))"
  by (auto simp: initializeSegments_def featureSegments_def Let_def)

lemma featureSegments_ids:
  "map (\<lambda>p. (seg_id (fst p), coordinates (fst p))) (featureSegments db ints feature) =
   map (\<lambda>seg. (seg_id seg, coordinates seg))
     (splitLineAtIntersections (latLng feature) (filter (nearLine (latLng feature)) ints)
        (jsOr (map_of (feature_properties feature) ''@id'') (map_of (feature_properties feature) ''id'')))"
  by (simp add: featureSegments_def Let_def comp_def)

lemma initializeSegments_ids:
  "map (\<lambda>p. (seg_id (fst p), coordinates (fst p))) (fst (initializeSegments counter db features)) =
   concat (map (\<lambda>feature. map (\<lambda>seg. (seg_id seg, coordinates seg))
     (splitLineAtIntersections (latLng feature)
        (filter (nearLine (latLng feature)) (allIntersectionsOf (filter isRoad features)))
        (jsOr (map_of (feature_properties feature) ''@id'') (map_of (feature_properties feature) ''id''))))
     (filter isRoad features))"
  by (simp add: initializeSegments_def Let_def map_concat comp_def featureSegments_ids)

lemma split_example:
  "splitLineAtIntersections [(0, 0), (0, 1), (0, 2)] [(0, 1)] (Some ''way/7'') =
     [\<lparr>seg_id = ''way/7_seg_0'', coordinates = [(0, 0), (0, 1)], properties = [], status = passable\<rparr>,
      \<lparr>seg_id = ''way/7_seg_1'', coordinates = [(0, 1), (0, 2)], properties = [], status = passable\<rparr>]"
  by (simp add: splitLineAtIntersections_def splitStep_def findNearestPointIndex_def nearestPointStep_def
      dist2_def newSegment_def createDeterministicId_def truthy_def digits_eval Let_def upt_rec)

lemma initializeSegments_example:
  "initializeSegments 0 Map.empty
     [\<lparr>feature_properties = [(''highway'', ''residential''), (''@id'', ''way/7'')],
       geometry_coordinates = [(123.74, 13.13), (123.75, 13.14)]\<rparr>]
   = ([(\<lparr>seg_id = ''way/7_seg_0'', coordinates = [(13.13, 123.74), (13.14, 123.75)],
         properties = [(''highway'', ''residential''), (''@id'', ''way/7'')], status = passable\<rparr>, None)], 0)"
  by (simp add: initializeSegments_def featureSegments_def isRoad_def truthy_def jsOr_def latLng_def
      allIntersectionsOf_def split_empty newSegment_def createDeterministicId_def digits_eval Let_def)

lemma initializeSegments_single:
  "initializeSegments 0 Map.empty
     [\<lparr>feature_properties = [(''highway'', ''residential''), (''@id'', ''way/8'')],
       geometry_coordinates = [(123.74, 13.13)]\<rparr>]
   = ([(\<lparr>seg_id = ''way/8_seg_0'', coordinates = [(13.13, 123.74)],
         properties = [(''highway'', ''residential''), (''@id'', ''way/8'')], status = passable\<rparr>, None)], 0)"
  by (simp add: initializeSegments_def featureSegments_def isRoad_def truthy_def jsOr_def latLng_def
      allIntersectionsOf_def split_empty newSegment_def createDeterministicId_def digits_eval Let_def)

section \<open>Two roads that cross, and a road of one point at the crossing\<close>

lemma hashStep_31: "hashStep h c = 31 * h + of_nat (of_char c)"
  by (simp add: hashStep_def push_bit_eq_mult)

lemma replicate_numeral: "replicate (numeral k) x = x # replicate (pred_numeral k) x"
  by (simp add: numeral_eq_Suc)

lemma toFixed6_examples:
  "toFixed 6 (-1) = ''-1.000000''" "toFixed 6 0 = ''0.000000''" "toFixed 6 1 = ''1.000000''"
  "toFixed 6 2 = ''2.000000''"
  by (simp_all add: toFixed_def Let_def digits_eval replicate_numeral)

lemma hash_id_west: "createDeterministicId [(-1, 1), (0, 1)] None k = ''seg_145838158''"
  by (simp add: createDeterministicId_def truthy_def coordString_def toFixed6_examples hashStep_31 digits_eval)

lemma hash_id_east: "createDeterministicId [(0, 1), (1, 1)] None k = ''seg_2090498597''"
  by (simp add: createDeterministicId_def truthy_def coordString_def toFixed6_examples hashStep_31 digits_eval)

lemma crossing_intersections:
  "allIntersectionsOf
      [\<lparr>feature_properties = [(''highway'', ''residential''), (''@id'', ''way/1'')],
        geometry_coordinates = [(0, 0), (1, 0), (2, 0)]\<rparr>,
       \<lparr>feature_properties = [(''highway'', ''primary'')],
        geometry_coordinates = [(1, -1), (1, 0), (1, 1)]\<rparr>,
       \<lparr>feature_properties = [(''highway'', ''service''), (''id'', ''c'')],
        geometry_coordinates = [(1, 0)]\<rparr>] = [(0, 1), (0, 1), (0, 1), (0, 1)]"
  by (simp add: allIntersectionsOf_def findIntersections_def getLineIntersection_def latLng_def
      Let_def upt_rec)

lemma crossing_near:
  "nearLine [(0, 0), (0, 1), (0, 2)] (0, 1)" "nearLine [(-1, 1), (0, 1), (1, 1)] (0, 1)" "nearLine [(0, 1)] (0, 1)"
  by (simp_all add: nearLine_def)

lemma crossing_split_first:
  "splitLineAtIntersections [(0, 0), (0, 1), (0, 2)] [(0, 1), (0, 1), (0, 1), (0, 1)] (Some ''way/1'') =
     [\<lparr>seg_id = ''way/1_seg_0'', coordinates = [(0, 0), (0, 1)], properties = [], status = passable\<rparr>,
      \<lparr>seg_id = ''way/1_seg_1'', coordinates = [(0, 1), (0, 2)], properties = [], status = passable\<rparr>]"
  by (simp add: splitLineAtIntersections_def splitStep_def findNearestPointIndex_def nearestPointStep_def
      dist2_def newSegment_def createDeterministicId_def truthy_def digits_eval Let_def upt_rec)

lemma crossing_split_second:
  "splitLineAtIntersections [(-1, 1), (0, 1), (1, 1)] [(0, 1), (0, 1), (0, 1), (0, 1)] None =
     [\<lparr>seg_id = ''seg_145838158'', coordinates = [(-1, 1), (0, 1)], properties = [], status = passable\<rparr>,
      \<lparr>seg_id = ''seg_2090498597'', coordinates = [(0, 1), (1, 1)], properties = [], status = passable\<rparr>]"
  by (simp add: splitLineAtIntersections_def splitStep_def findNearestPointIndex_def nearestPointStep_def
      dist2_def newSegment_def hash_id_west hash_id_east Let_def upt_rec)

lemma crossing_split_point:
  "splitLineAtIntersections [(0, 1)] [(0, 1), (0, 1), (0, 1), (0, 1)] (Some ''c'') = []"
  by (simp add: splitLineAtIntersections_def splitStep_def findNearestPointIndex_def nearestPointStep_def
      dist2_def newSegment_def Let_def upt_rec)

lemma crossing_roads:
  "filter isRoad
      [\<lparr>feature_properties = [(''highway'', ''residential''), (''@id'', ''way/1'')],
        geometry_coordinates = [(0, 0), (1, 0), (2, 0)]\<rparr>,
       \<lparr>feature_properties = [(''highway'', ''primary'')],
        geometry_coordinates = [(1, -1), (1, 0), (1, 1)]\<rparr>,
       \<lparr>feature_properties = [(''highway'', ''service''), (''id'', ''c'')],
        geometry_coordinates = [(1, 0)]\<rparr>] =
      [\<lparr>feature_properties = [(''highway'', ''residential''), (''@id'', ''way/1'')],
        geometry_coordinates = [(0, 0), (1, 0), (2, 0)]\<rparr>,
       \<lparr>feature_properties = [(''highway'', ''primary'')],
        geometry_coordinates = [(1, -1), (1, 0), (1, 1)]\<rparr>,
       \<lparr>feature_properties = [(''highway'', ''service''), (''id'', ''c'')],
        geometry_coordinates = [(1, 0)]\<rparr>]"
  by (simp add: isRoad_def truthy_def)

lemma initializeSegments_crossing:
  "initializeSegments counter Map.empty
      [\<lparr>feature_properties = [(''highway'', ''residential''), (''@id'', ''way/1'')],
        geometry_coordinates = [(0, 0), (1, 0), (2, 0)]\<rparr>,
       \<lparr>feature_properties = [(''highway'', ''primary'')],
        geometry_coordinates = [(1, -1), (1, 0), (1, 1)]\<rparr>,
       \<lparr>feature_properties = [(''highway'', ''service''), (''id'', ''c'')],
        geometry_coordinates = [(1, 0)]\<rparr>] =
     ([(\<lparr>seg_id = ''way/1_seg_0'', coordinates = [(0, 0), (0, 1)],
          properties = [(''highway'', ''residential''), (''@id'', ''way/1'')], status = passable\<rparr>, None),
       (\<lparr>seg_id = ''way/1_seg_1'', coordinates = [(0, 1), (0, 2)],
          properties = [(''highway'', ''residential''), (''@id'', ''way/1'')], status = passable\<rparr>, None),
       (\<lparr>seg_id = ''seg_145838158'', coordinates = [(-1, 1), (0, 1)],
          properties = [(''highway'', ''primary'')], status = passable\<rparr>, None),
       (\<lparr>seg_id = ''seg_2090498597'', coordinates = [(0, 1), (1, 1)],
          properties = [(''highway'', ''primary'')], status = passable\<rparr>, None)], counter)"
  unfolding initializeSegments_def Let_def crossing_roads crossing_intersections
  by (simp add: featureSegments_def latLng_def jsOr_def truthy_def crossing_near
      crossing_split_first crossing_split_second crossing_split_point)

subsection \<open>The reconciler\<close>

lemmas reconciler_eval = deliverAll_def Let_def fireTimeouts_def handleSegmentStatusSelect_def
  afterRender_def realtimeEffect_def statusMap_def reconcileSegment_def hasChanges_def

lemma handleSegmentStatusSelect_applies:
  "s \<in> set (roadSegments_st (handleSegmentStatusSelect (Some segment) newStatus c)) \<Longrightarrow>
   seg_id s = seg_id segment \<Longrightarrow> status s = newStatus"
  by (auto simp: handleSegmentStatusSelect_def split: if_splits)

lemma handleSegmentStatusSelect_marks:
  "seg_id segment \<in> locallyUpdatedSegments (handleSegmentStatusSelect (Some segment) newStatus c)"
  by (simp add: handleSegmentStatusSelect_def)

lemma reconcileSegment_status:
  "status (reconcileSegment locally statuses segment) =
     (if seg_id segment \<in> locally then status segment
      else case statuses (seg_id segment) of None \<Rightarrow> status segment | Some l \<Rightarrow> l)"
  by (simp add: reconcileSegment_def split: option.splits)

lemma reconcileSegment_id [simp]:
  "seg_id (reconcileSegment locally statuses segment) = seg_id segment"
  by (simp add: reconcileSegment_def split: option.splits)

lemma reconcileSegment_idem [simp]:
  "reconcileSegment locally statuses (reconcileSegment locally statuses segment) =
   reconcileSegment locally statuses segment"
  by (simp add: reconcileSegment_def split: option.splits)

lemma hasChanges_iff:
  "hasChanges (map f xs) xs \<longleftrightarrow> map status (map f xs) \<noteq> map status xs"
proof -
  have "hasChanges (map f xs) xs \<longleftrightarrow> (\<exists>i < length xs. status (f (xs ! i)) \<noteq> status (xs ! i))"
    unfolding hasChanges_def list_ex_iff by auto
  also have "\<dots> \<longleftrightarrow> \<not> (\<forall>x \<in> set xs. status (f x) = status x)"
    by (metis in_set_conv_nth)
  also have "\<dots> \<longleftrightarrow> map status (map f xs) \<noteq> map status xs"
    by simp
  finally show ?thesis .
qed

lemma reconcileSegment_same:
  "status (reconcileSegment locally statuses segment) = status segment \<Longrightarrow>
   reconcileSegment locally statuses segment = segment"
  by (simp add: reconcileSegment_def split: option.splits if_splits)

lemma realtimeEffect_segments:
  "roadSegments_st (realtimeEffect now c) =
     (if roadStatusUpdates_st c = [] \<or> roadSegments_st c = [] then roadSegments_st c
      else map (reconcileSegment (locallyUpdatedSegments c) (statusMap (roadStatusUpdates_st c)))
             (roadSegments_st c))"
proof -
  have "map (reconcileSegment l m) xs = xs" if "\<not> hasChanges (map (reconcileSegment l m) xs) xs"
    for l m xs
  proof -
    have "map status (map (reconcileSegment l m) xs) = map status xs"
      using that by (simp add: hasChanges_iff)
    then have "\<forall>x \<in> set xs. status (reconcileSegment l m x) = status x" by simp
    then show ?thesis by (simp add: reconcileSegment_same map_idI)
  qed
  from this [of "locallyUpdatedSegments c" "statusMap (roadStatusUpdates_st c)" "roadSegments_st c"]
  show ?thesis by (auto simp: realtimeEffect_def Let_def)
qed

lemma realtimeEffect_keeps [simp]:
  "locallyUpdatedSegments (realtimeEffect now c) = locallyUpdatedSegments c"
  "roadStatusUpdates_st (realtimeEffect now c) = roadStatusUpdates_st c"
  by (simp_all add: realtimeEffect_def Let_def)

text \<open>A second run of the effect changes no segment: no third run follows.\<close>

lemma realtimeEffect_settled:
  "roadSegments_st (realtimeEffect now' (realtimeEffect now c)) = roadSegments_st (realtimeEffect now c)"
  by (simp add: realtimeEffect_segments)

lemma realtimeEffect_pending:
  "s \<in> set (roadSegments_st c) \<Longrightarrow> seg_id s \<in> locallyUpdatedSegments c \<Longrightarrow>
   s \<in> set (roadSegments_st (realtimeEffect now c))"
  by (auto simp: realtimeEffect_segments reconcileSegment_def image_iff intro!: bexI [of _ s])

text \<open>
  With no feed data at the time of the edit the effect returns before it sets a timeout, so
  the flag stays until a later run of the effect meets it: a feed update delivered a minute
  after the edit is still dropped.
\<close>

lemma feed_dropped_long_after_edit:
  "map status (roadSegments_st (deliverAll
      \<lparr>roadSegments_st = [\<lparr>seg_id = ''X'', coordinates = [(0, 0), (0, 1)], properties = [],
          status = passable\<rparr>],
       roadStatusUpdates_st = [], locallyUpdatedSegments = {}, timeouts = []\<rparr>
      [(0, LocalEdit ''X'' blocked),
       (60000, FeedUpdate [\<lparr>update_id = ''2'', segment_id = ''X'', road_name = ''Road'',
          update_status = passable, updated_at = [], updated_by_email = []\<rparr>])])) = [blocked]"
  by (simp add: reconciler_eval)

section \<open>Claims about the graph builder\<close>

text \<open>
  Claim C1. For every segment that is not blocked and every consecutive coordinate pair \<open>(p, q)\<close>
  of it, the built graph has a node for the key of \<open>p\<close> and a node for the key of \<open>q\<close>, an edge
  from the first to the second and an edge back, both with cost
  \<open>haversineDistance p q * multiplier\<close>; the multiplier is 1 for a passable segment, 3 for a
  restricted one in standard mode and 0.5 for a restricted one in tall-vehicle mode.
\<close>

theorem buildGraph_adds_both_edges:
  assumes "seg \<in> set roadSegments" and "status seg \<noteq> blocked"
    and "Suc i < length (coordinates seg)"
  shows "let g = buildGraph roadSegments tallVehicleMode;
             p = coordinates seg ! i; q = coordinates seg ! Suc i;
             multiplier = (if tallVehicleMode then (if status seg = restricted then 0.5 else 1)
                           else (if status seg = restricted then 3 else 1));
             c = haversineDistance (fst p) (snd p) (fst q) (snd q) * multiplier
         in \<exists>u v. u < length (nodes g) \<and> v < length (nodes g) \<and>
                nodeKey (lat (nodes g ! u)) (lng (nodes g ! u)) = nodeKey (fst p) (snd p) \<and>
                nodeKey (lat (nodes g ! v)) (lng (nodes g ! v)) = nodeKey (fst q) (snd q) \<and>
                \<lparr>to = v, cost = c\<rparr> \<in> set (edges (nodes g ! u)) \<and>
                \<lparr>to = u, cost = c\<rparr> \<in> set (edges (nodes g ! v))"
proof -
  have "hasPair (buildState roadSegments tallVehicleMode)
           (coordKey (coordinates seg ! i)) (coordKey (coordinates seg ! Suc i)) (pairCost tallVehicleMode seg i)"
    unfolding buildState_def by (rule foldl_addSegment_hasPair [OF binv_empty assms])
  then show ?thesis
    unfolding hasPair_def Let_def buildGraph_def pairCost_def baseCostOf_def coordKey_def keyOf_def
    by simp
qed

text \<open>The theorem at a restricted segment in tall-vehicle mode.\<close>

theorem buildGraph_adds_both_edges_witness:
  "let seg = \<lparr>seg_id = ''r'', coordinates = [(0, 0), (0, 1)], properties = [], status = restricted\<rparr>;
       g = buildGraph [seg] True;
       c = haversineDistance 0 0 0 1 * 0.5
   in seg \<in> set [seg] \<and> status seg \<noteq> blocked \<and> Suc 0 < length (coordinates seg) \<and>
      (\<exists>u v. u < length (nodes g) \<and> v < length (nodes g) \<and>
          nodeKey (lat (nodes g ! u)) (lng (nodes g ! u)) = nodeKey 0 0 \<and>
          nodeKey (lat (nodes g ! v)) (lng (nodes g ! v)) = nodeKey 0 1 \<and>
          \<lparr>to = v, cost = c\<rparr> \<in> set (edges (nodes g ! u)) \<and>
          \<lparr>to = u, cost = c\<rparr> \<in> set (edges (nodes g ! v)))"
  using buildGraph_adds_both_edges
    [of "\<lparr>seg_id = ''r'', coordinates = [(0, 0), (0, 1)], properties = [], status = restricted\<rparr>"
        "[\<lparr>seg_id = ''r'', coordinates = [(0, 0), (0, 1)], properties = [], status = restricted\<rparr>]" 0 True]
  by (simp add: Let_def)

text \<open>
  Claim C2, as amended. A restricted segment of 100 m joins \<open>A\<close> and \<open>B\<close>, a passable
  detour of 250 m joins them through \<open>M\<close>, and the three points have different keys. In tall
  mode the routing effect returns the restricted segment, at a search cost of 50, with a
  distance of 100 m and an ETA of 0.2 minutes. In standard mode the effect filters the
  restricted segment out before it builds the graph, as it does blocked ones, so only the detour
  is in the graph; it is returned, at a search cost of 250, with a distance of 250 m and an ETA
  of 0.5 minutes.
\<close>

theorem mode_dependent_preference:
  assumes "nodeKey a1 a2 \<noteq> nodeKey b1 b2" and "nodeKey a1 a2 \<noteq> nodeKey m1 m2"
    and "nodeKey b1 b2 \<noteq> nodeKey m1 m2"
    and "haversineDistance a1 a2 b1 b2 = 100"
    and "haversineDistance a1 a2 m1 m2 + haversineDistance m1 m2 b1 b2 = 250"
    and "0 < haversineDistance m1 m2 b1 b2"
  shows "routingEffect
           [\<lparr>seg_id = i, coordinates = [(a1, a2), (b1, b2)], properties = pr, status = restricted\<rparr>,
            \<lparr>seg_id = j, coordinates = [(a1, a2), (m1, m2), (b1, b2)], properties = ps, status = passable\<rparr>]
           (Some (a1, a2)) (Some (b1, b2)) True True = Some (Route [(a1, a2), (b1, b2)] 100 (1 / 5)) \<and>
         astarCost (buildGraph (filteredSegments True
           [\<lparr>seg_id = i, coordinates = [(a1, a2), (b1, b2)], properties = pr, status = restricted\<rparr>,
            \<lparr>seg_id = j, coordinates = [(a1, a2), (m1, m2), (b1, b2)], properties = ps, status = passable\<rparr>]) True) 0 1
           = Some (Fin 50) \<and>
         routingEffect
           [\<lparr>seg_id = i, coordinates = [(a1, a2), (b1, b2)], properties = pr, status = restricted\<rparr>,
            \<lparr>seg_id = j, coordinates = [(a1, a2), (m1, m2), (b1, b2)], properties = ps, status = passable\<rparr>]
           (Some (a1, a2)) (Some (b1, b2)) True False = Some (Route [(a1, a2), (m1, m2), (b1, b2)] 250 (1 / 2)) \<and>
         astarCost (buildGraph (filteredSegments False
           [\<lparr>seg_id = i, coordinates = [(a1, a2), (b1, b2)], properties = pr, status = restricted\<rparr>,
            \<lparr>seg_id = j, coordinates = [(a1, a2), (m1, m2), (b1, b2)], properties = ps, status = passable\<rparr>]) False) 0 2
           = Some (Fin 250) \<and>
         filteredSegments False
           [\<lparr>seg_id = i, coordinates = [(a1, a2), (b1, b2)], properties = pr, status = restricted\<rparr>,
            \<lparr>seg_id = j, coordinates = [(a1, a2), (m1, m2), (b1, b2)], properties = ps, status = passable\<rparr>]
           = [\<lparr>seg_id = j, coordinates = [(a1, a2), (m1, m2), (b1, b2)], properties = ps, status = passable\<rparr>]"
  using scenario_tall [OF assms(1-5)] scenario_standard [OF assms]
  by (simp add: filteredSegments_def)

text \<open>The theorem on the equator, with \<open>B\<close> 100 m east of \<open>A\<close> and \<open>M\<close> 75 m west of it.\<close>

theorem mode_dependent_preference_witness:
  "nodeKey 0 0 \<noteq> nodeKey 0 (100 / mPerDeg) \<and> nodeKey 0 0 \<noteq> nodeKey 0 (- (75 / mPerDeg)) \<and>
   nodeKey 0 (100 / mPerDeg) \<noteq> nodeKey 0 (- (75 / mPerDeg)) \<and>
   haversineDistance 0 0 0 (100 / mPerDeg) = 100 \<and>
   haversineDistance 0 0 0 (- (75 / mPerDeg)) + haversineDistance 0 (- (75 / mPerDeg)) 0 (100 / mPerDeg) = 250 \<and>
   0 < haversineDistance 0 (- (75 / mPerDeg)) 0 (100 / mPerDeg) \<and>
   routingEffect
     [\<lparr>seg_id = ''r'', coordinates = [(0, 0), (0, 100 / mPerDeg)], properties = [], status = restricted\<rparr>,
      \<lparr>seg_id = ''p'', coordinates = [(0, 0), (0, - (75 / mPerDeg)), (0, 100 / mPerDeg)], properties = [], status = passable\<rparr>]
     (Some (0, 0)) (Some (0, 100 / mPerDeg)) True True = Some (Route [(0, 0), (0, 100 / mPerDeg)] 100 (1 / 5)) \<and>
   astarCost (buildGraph (filteredSegments True
     [\<lparr>seg_id = ''r'', coordinates = [(0, 0), (0, 100 / mPerDeg)], properties = [], status = restricted\<rparr>,
      \<lparr>seg_id = ''p'', coordinates = [(0, 0), (0, - (75 / mPerDeg)), (0, 100 / mPerDeg)], properties = [], status = passable\<rparr>]) True) 0 1
     = Some (Fin 50) \<and>
   routingEffect
     [\<lparr>seg_id = ''r'', coordinates = [(0, 0), (0, 100 / mPerDeg)], properties = [], status = restricted\<rparr>,
      \<lparr>seg_id = ''p'', coordinates = [(0, 0), (0, - (75 / mPerDeg)), (0, 100 / mPerDeg)], properties = [], status = passable\<rparr>]
     (Some (0, 0)) (Some (0, 100 / mPerDeg)) True False
     = Some (Route [(0, 0), (0, - (75 / mPerDeg)), (0, 100 / mPerDeg)] 250 (1 / 2)) \<and>
   astarCost (buildGraph (filteredSegments False
     [\<lparr>seg_id = ''r'', coordinates = [(0, 0), (0, 100 / mPerDeg)], properties = [], status = restricted\<rparr>,
      \<lparr>seg_id = ''p'', coordinates = [(0, 0), (0, - (75 / mPerDeg)), (0, 100 / mPerDeg)], properties = [], status = passable\<rparr>]) False) 0 2
     = Some (Fin 250)"
proof -
  have e: "haversineDistance 0 0 0 (- (75 / mPerDeg)) + haversineDistance 0 (- (75 / mPerDeg)) 0 (100 / mPerDeg) = 250"
    by (simp add: exact_AM exact_MB)
  have p: "0 < haversineDistance 0 (- (75 / mPerDeg)) 0 (100 / mPerDeg)" by (simp add: exact_MB)
  from mode_dependent_preference [OF exact_keys exact_AB e p, of "''r''" "[]" "''p''" "[]"]
    exact_keys exact_AB e p
  show ?thesis by blast
qed

text \<open>
  In standard mode the restricted segment is not in the graph the effect builds: it would be an
  edge of cost 300 between the nodes of \<open>A\<close> and \<open>B\<close>, and the graph has the detour's edges only.
\<close>

theorem standard_mode_filters_restricted:
  "filteredSegments False
     [\<lparr>seg_id = ''r'', coordinates = [(0, 0), (0, 100 / mPerDeg)], properties = [], status = restricted\<rparr>,
      \<lparr>seg_id = ''p'', coordinates = [(0, 0), (0, - (75 / mPerDeg)), (0, 100 / mPerDeg)], properties = [], status = passable\<rparr>]
   = [\<lparr>seg_id = ''p'', coordinates = [(0, 0), (0, - (75 / mPerDeg)), (0, 100 / mPerDeg)], properties = [], status = passable\<rparr>] \<and>
   haversineDistance 0 0 0 (100 / mPerDeg) * 3 = 300 \<and>
   buildGraph (filteredSegments False
     [\<lparr>seg_id = ''r'', coordinates = [(0, 0), (0, 100 / mPerDeg)], properties = [], status = restricted\<rparr>,
      \<lparr>seg_id = ''p'', coordinates = [(0, 0), (0, - (75 / mPerDeg)), (0, 100 / mPerDeg)], properties = [], status = passable\<rparr>]) False
   = \<lparr>nodes = [\<lparr>node_id = 0, lat = 0, lng = 0, edges = [\<lparr>to = 1, cost = 75\<rparr>]\<rparr>,
               \<lparr>node_id = 1, lat = 0, lng = - (75 / mPerDeg), edges = [\<lparr>to = 0, cost = 75\<rparr>, \<lparr>to = 2, cost = 175\<rparr>]\<rparr>,
               \<lparr>node_id = 2, lat = 0, lng = 100 / mPerDeg, edges = [\<lparr>to = 1, cost = 175\<rparr>]\<rparr>]\<rparr>"
proof -
  have f: "filteredSegments False
     [\<lparr>seg_id = ''r'', coordinates = [(0, 0), (0, 100 / mPerDeg)], properties = [], status = restricted\<rparr>,
      \<lparr>seg_id = ''p'', coordinates = [(0, 0), (0, - (75 / mPerDeg)), (0, 100 / mPerDeg)], properties = [], status = passable\<rparr>]
   = [\<lparr>seg_id = ''p'', coordinates = [(0, 0), (0, - (75 / mPerDeg)), (0, 100 / mPerDeg)], properties = [], status = passable\<rparr>]"
    by (simp add: filteredSegments_def)
  show ?thesis
    unfolding f scenario_graph_standard [OF exact_keys] exact_AB exact_AM exact_MB by simp
qed

text \<open>
  Claim C3. Blocked segments contribute nothing to the graph, in either vehicle mode: the graph
  built from a segment list is the graph built from its segments that are not blocked, and every
  edge of it comes from a consecutive coordinate pair of a segment that is not blocked, joins the
  nodes of that pair's keys and carries that pair's cost.
\<close>

theorem blocked_segments_contribute_nothing:
  "buildGraph roadSegments tallVehicleMode =
     buildGraph (filter (\<lambda>s. status s \<noteq> blocked) roadSegments) tallVehicleMode \<and>
   (let g = buildGraph roadSegments tallVehicleMode
    in \<forall>u < length (nodes g). \<forall>e \<in> set (edges (nodes g ! u)).
         \<exists>seg \<in> set roadSegments. status seg \<noteq> blocked \<and>
           (\<exists>i. Suc i < length (coordinates seg) \<and>
              cost e = haversineDistance (fst (coordinates seg ! i)) (snd (coordinates seg ! i))
                         (fst (coordinates seg ! Suc i)) (snd (coordinates seg ! Suc i)) *
                       baseCostOf tallVehicleMode (status seg) \<and>
              (let ku = nodeKey (lat (nodes g ! u)) (lng (nodes g ! u));
                   kv = nodeKey (lat (nodes g ! to e)) (lng (nodes g ! to e));
                   kp = nodeKey (fst (coordinates seg ! i)) (snd (coordinates seg ! i));
                   kq = nodeKey (fst (coordinates seg ! Suc i)) (snd (coordinates seg ! Suc i))
               in ku = kp \<and> kv = kq \<or> ku = kq \<and> kv = kp)))"
proof
  show "buildGraph roadSegments tallVehicleMode =
     buildGraph (filter (\<lambda>s. status s \<noteq> blocked) roadSegments) tallVehicleMode"
    by (simp add: buildGraph_def buildState_def foldl_addSegment_filter)
next
  have "pinv (edgeFrom tallVehicleMode roadSegments) (buildState roadSegments tallVehicleMode)"
    by (rule buildState_pinv)
  then show "let g = buildGraph roadSegments tallVehicleMode
    in \<forall>u < length (nodes g). \<forall>e \<in> set (edges (nodes g ! u)).
         \<exists>seg \<in> set roadSegments. status seg \<noteq> blocked \<and>
           (\<exists>i. Suc i < length (coordinates seg) \<and>
              cost e = haversineDistance (fst (coordinates seg ! i)) (snd (coordinates seg ! i))
                         (fst (coordinates seg ! Suc i)) (snd (coordinates seg ! Suc i)) *
                       baseCostOf tallVehicleMode (status seg) \<and>
              (let ku = nodeKey (lat (nodes g ! u)) (lng (nodes g ! u));
                   kv = nodeKey (lat (nodes g ! to e)) (lng (nodes g ! to e));
                   kp = nodeKey (fst (coordinates seg ! i)) (snd (coordinates seg ! i));
                   kq = nodeKey (fst (coordinates seg ! Suc i)) (snd (coordinates seg ! Suc i))
               in ku = kp \<and> kv = kq \<or> ku = kq \<and> kv = kp))"
    unfolding pinv_def edgeFrom_def Let_def buildGraph_def pairCost_def coordKey_def keyOf_def
    by simp
qed

text \<open>The theorem at a blocked segment followed by a passable one that shares a point with it.\<close>

theorem blocked_segments_contribute_nothing_witness:
  "buildGraph [\<lparr>seg_id = ''b'', coordinates = [(0, 0), (0, 1)], properties = [], status = blocked\<rparr>,
        \<lparr>seg_id = ''p'', coordinates = [(0, 1), (0, 2)], properties = [], status = passable\<rparr>] False =
   buildGraph [\<lparr>seg_id = ''p'', coordinates = [(0, 1), (0, 2)], properties = [], status = passable\<rparr>] False \<and>
   (let segs = [\<lparr>seg_id = ''b'', coordinates = [(0, 0), (0, 1)], properties = [], status = blocked\<rparr>,
        \<lparr>seg_id = ''p'', coordinates = [(0, 1), (0, 2)], properties = [], status = passable\<rparr>];
        g = buildGraph segs False; e = \<lparr>to = 1, cost = haversineDistance 0 1 0 2\<rparr>
    in 0 < length (nodes g) \<and> e \<in> set (edges (nodes g ! 0)) \<and>
       (\<exists>seg \<in> set segs. status seg \<noteq> blocked \<and>
           (\<exists>i. Suc i < length (coordinates seg) \<and>
              cost e = haversineDistance (fst (coordinates seg ! i)) (snd (coordinates seg ! i))
                         (fst (coordinates seg ! Suc i)) (snd (coordinates seg ! Suc i)) *
                       baseCostOf False (status seg) \<and>
              (let ku = nodeKey (lat (nodes g ! 0)) (lng (nodes g ! 0));
                   kv = nodeKey (lat (nodes g ! to e)) (lng (nodes g ! to e));
                   kp = nodeKey (fst (coordinates seg ! i)) (snd (coordinates seg ! i));
                   kq = nodeKey (fst (coordinates seg ! Suc i)) (snd (coordinates seg ! Suc i))
               in ku = kp \<and> kv = kq \<or> ku = kq \<and> kv = kp))))"
proof -
  let ?segs = "[\<lparr>seg_id = ''b'', coordinates = [(0, 0), (0, 1)], properties = [], status = blocked\<rparr>,
        \<lparr>seg_id = ''p'', coordinates = [(0, 1), (0, 2)], properties = [], status = passable\<rparr>]"
  let ?e = "\<lparr>to = 1, cost = haversineDistance 0 1 0 2\<rparr>"
  note t = blocked_segments_contribute_nothing [of ?segs False, unfolded Let_def]
  have m: "0 < length (nodes (buildGraph ?segs False))"
    "?e \<in> set (edges (nodes (buildGraph ?segs False) ! 0))"
    by (simp_all add: buildGraph_example)
  from t have "\<forall>u < length (nodes (buildGraph ?segs False)).
      \<forall>e \<in> set (edges (nodes (buildGraph ?segs False) ! u)).
         \<exists>seg \<in> set ?segs. status seg \<noteq> blocked \<and>
           (\<exists>i. Suc i < length (coordinates seg) \<and>
              cost e = haversineDistance (fst (coordinates seg ! i)) (snd (coordinates seg ! i))
                         (fst (coordinates seg ! Suc i)) (snd (coordinates seg ! Suc i)) *
                       baseCostOf False (status seg) \<and>
              (nodeKey (lat (nodes (buildGraph ?segs False) ! u)) (lng (nodes (buildGraph ?segs False) ! u)) =
                 nodeKey (fst (coordinates seg ! i)) (snd (coordinates seg ! i)) \<and>
               nodeKey (lat (nodes (buildGraph ?segs False) ! to e)) (lng (nodes (buildGraph ?segs False) ! to e)) =
                 nodeKey (fst (coordinates seg ! Suc i)) (snd (coordinates seg ! Suc i)) \<or>
               nodeKey (lat (nodes (buildGraph ?segs False) ! u)) (lng (nodes (buildGraph ?segs False) ! u)) =
                 nodeKey (fst (coordinates seg ! Suc i)) (snd (coordinates seg ! Suc i)) \<and>
               nodeKey (lat (nodes (buildGraph ?segs False) ! to e)) (lng (nodes (buildGraph ?segs False) ! to e)) =
                 nodeKey (fst (coordinates seg ! i)) (snd (coordinates seg ! i))))"
    by (rule conjunct2)
  from this [rule_format, OF m] t [THEN conjunct1] m
  show ?thesis unfolding Let_def by simp
qed

text \<open>
  Claim C4. Every built graph is undirected: each edge from \<open>u\<close> to \<open>v\<close> with cost \<open>c\<close> has an
  edge from \<open>v\<close> to \<open>u\<close> with cost \<open>c\<close>; hence a path from \<open>a\<close> to \<open>b\<close> walked backwards is a
  path from \<open>b\<close> to \<open>a\<close> of the same cost. (Costs are real numbers here, so the order of
  summation does not matter.)
\<close>

theorem buildGraph_undirected:
  "let g = buildGraph roadSegments tallVehicleMode
   in (\<forall>u < length (nodes g). \<forall>e \<in> set (edges (nodes g ! u)).
         to e < length (nodes g) \<and> \<lparr>to = u, cost = cost e\<rparr> \<in> set (edges (nodes g ! to e))) \<and>
      (\<forall>a b es. isPath g a es b \<longrightarrow>
         isPath g b (revPath a es) a \<and> pathCost (revPath a es) = pathCost es)"
  unfolding Let_def
proof (intro conjI allI impI ballI)
  fix a b es assume "isPath (buildGraph roadSegments tallVehicleMode) a es b"
  then show "isPath (buildGraph roadSegments tallVehicleMode) b (revPath a es) a"
    by (rule isPath_revPath [rotated]) (rule buildGraph_edge)
qed (simp_all add: buildGraph_edge pathCost_revPath)

text \<open>The theorem at the one edge of a two-node graph.\<close>

theorem buildGraph_undirected_witness:
  "let g = buildGraph [\<lparr>seg_id = ''b'', coordinates = [(0, 0), (0, 1)], properties = [], status = blocked\<rparr>,
        \<lparr>seg_id = ''p'', coordinates = [(0, 1), (0, 2)], properties = [], status = passable\<rparr>] False;
       e = \<lparr>to = 1, cost = haversineDistance 0 1 0 2\<rparr>
   in 0 < length (nodes g) \<and> e \<in> set (edges (nodes g ! 0)) \<and> isPath g 0 [e] 1 \<and>
      to e < length (nodes g) \<and> \<lparr>to = 0, cost = cost e\<rparr> \<in> set (edges (nodes g ! to e)) \<and>
      isPath g 1 (revPath 0 [e]) 0 \<and> pathCost (revPath 0 [e]) = pathCost [e]"
proof -
  let ?segs = "[\<lparr>seg_id = ''b'', coordinates = [(0, 0), (0, 1)], properties = [], status = blocked\<rparr>,
        \<lparr>seg_id = ''p'', coordinates = [(0, 1), (0, 2)], properties = [], status = passable\<rparr>]"
  let ?e = "\<lparr>to = 1, cost = haversineDistance 0 1 0 2\<rparr>"
  note t = buildGraph_undirected [of ?segs False, unfolded Let_def]
  have m: "0 < length (nodes (buildGraph ?segs False))"
    "?e \<in> set (edges (nodes (buildGraph ?segs False) ! 0))"
    by (simp_all add: buildGraph_example)
  have p: "isPath (buildGraph ?segs False) 0 [?e] 1"
    by (simp add: buildGraph_example)
  from t [THEN conjunct1, rule_format, OF m] t [THEN conjunct2, rule_format, OF p] m p
  show ?thesis unfolding Let_def by simp
qed




section \<open>Claims about segment assembly\<close>

text \<open>
  Claim C6. Segment assembly is deterministic, and segment ids are a function of the raw
  features alone. The assembly leaves the module's id counter as it found it. The ids and
  coordinate sequences it produces are the same whatever the counter and whatever the status
  log hold. They are, road feature by road feature in the order of the features, the pieces
  the feature's line is split into: piece number \<open>k\<close> (counted from 0 within the feature)
  has the id made of the feature's \<open>@id\<close> or \<open>id\<close> property, \<open>_seg_\<close> and \<open>k\<close>, or, without
  such a property, \<open>seg_\<close> followed by the absolute value of the 32-bit hash of the piece's own
  coordinates written with six decimals.
\<close>

theorem assembly_ids_deterministic:
  "snd (initializeSegments counter latestStatusMap features) = counter \<and>
   map (\<lambda>p. (seg_id (fst p), coordinates (fst p))) (fst (initializeSegments counter latestStatusMap features)) =
   map (\<lambda>p. (seg_id (fst p), coordinates (fst p))) (fst (initializeSegments counter' latestStatusMap' features)) \<and>
   map (\<lambda>p. (seg_id (fst p), coordinates (fst p))) (fst (initializeSegments counter latestStatusMap features)) =
   concat (map (\<lambda>feature.
      (let lineId = jsOr (map_of (feature_properties feature) ''@id'') (map_of (feature_properties feature) ''id'');
           cs = map coordinates (splitLineAtIntersections (latLng feature)
                  (filter (nearLine (latLng feature)) (allIntersectionsOf (filter isRoad features))) lineId)
       in map (\<lambda>k. (if truthy lineId then the lineId @ ''_seg_'' @ digits k
                      else ''seg_'' @ digits (nat \<bar>sint (foldl hashStep 0 (coordString (cs ! k)))\<bar>),
                     cs ! k)) [0 ..< length cs]))
     (filter isRoad features))"
proof (intro conjI)
  show "snd (initializeSegments counter latestStatusMap features) = counter"
    by (simp add: initializeSegments_def Let_def)
  show "map (\<lambda>p. (seg_id (fst p), coordinates (fst p))) (fst (initializeSegments counter latestStatusMap features)) =
   map (\<lambda>p. (seg_id (fst p), coordinates (fst p))) (fst (initializeSegments counter' latestStatusMap' features))"
    by (simp only: initializeSegments_ids)
  have pc: "map (\<lambda>seg. (seg_id seg, coordinates seg)) (splitLineAtIntersections line ints lineId) =
      map (\<lambda>k. (if truthy lineId then the lineId @ ''_seg_'' @ digits k
                      else ''seg_'' @ digits (nat \<bar>sint (foldl hashStep 0
                        (coordString (map coordinates (splitLineAtIntersections line ints lineId) ! k)))\<bar>),
                     map coordinates (splitLineAtIntersections line ints lineId) ! k))
        [0 ..< length (map coordinates (splitLineAtIntersections line ints lineId))]"
    for line ints lineId
  proof (rule nth_equalityI)
    show "length (map (\<lambda>seg. (seg_id seg, coordinates seg)) (splitLineAtIntersections line ints lineId)) =
      length (map (\<lambda>k. (if truthy lineId then the lineId @ ''_seg_'' @ digits k
                      else ''seg_'' @ digits (nat \<bar>sint (foldl hashStep 0
                        (coordString (map coordinates (splitLineAtIntersections line ints lineId) ! k)))\<bar>),
                     map coordinates (splitLineAtIntersections line ints lineId) ! k))
        [0 ..< length (map coordinates (splitLineAtIntersections line ints lineId))])"
      by simp
  next
    fix k assume "k < length (map (\<lambda>seg. (seg_id seg, coordinates seg)) (splitLineAtIntersections line ints lineId))"
    then have k: "k < length (splitLineAtIntersections line ints lineId)" by simp
    have "seg_id (splitLineAtIntersections line ints lineId ! k) =
        createDeterministicId (coordinates (splitLineAtIntersections line ints lineId ! k)) lineId (Some k)"
      using split_indexed [OF k, THEN conjunct1] by (metis RoadSegment.select_convs(1) newSegment_def)
    then show "map (\<lambda>seg. (seg_id seg, coordinates seg)) (splitLineAtIntersections line ints lineId) ! k =
      map (\<lambda>k. (if truthy lineId then the lineId @ ''_seg_'' @ digits k
                      else ''seg_'' @ digits (nat \<bar>sint (foldl hashStep 0
                        (coordString (map coordinates (splitLineAtIntersections line ints lineId) ! k)))\<bar>),
                     map coordinates (splitLineAtIntersections line ints lineId) ! k))
        [0 ..< length (map coordinates (splitLineAtIntersections line ints lineId))] ! k"
      using k by (simp add: createDeterministicId_forms)
  qed
  show "map (\<lambda>p. (seg_id (fst p), coordinates (fst p))) (fst (initializeSegments counter latestStatusMap features)) =
   concat (map (\<lambda>feature.
      (let lineId = jsOr (map_of (feature_properties feature) ''@id'') (map_of (feature_properties feature) ''id'');
           cs = map coordinates (splitLineAtIntersections (latLng feature)
                  (filter (nearLine (latLng feature)) (allIntersectionsOf (filter isRoad features))) lineId)
       in map (\<lambda>k. (if truthy lineId then the lineId @ ''_seg_'' @ digits k
                      else ''seg_'' @ digits (nat \<bar>sint (foldl hashStep 0 (coordString (cs ! k)))\<bar>),
                     cs ! k)) [0 ..< length cs]))
     (filter isRoad features))"
    unfolding initializeSegments_ids Let_def by (simp only: pc)
qed

text \<open>
  The theorem at two roads that cross at a shared point and a road of one point at the
  crossing, with the counter at 7 and a log entry for the first piece: the first road, which
  has an \<open>@id\<close>, gives two indexed pieces, the second, which has none, two pieces named by their
  hashes, and neither the counter nor the log entry shows in ids or coordinates.
\<close>

theorem assembly_ids_deterministic_witness:
  "snd (initializeSegments 7 [''way/1_seg_0'' \<mapsto> \<lparr>update_id = ''u1'', segment_id = ''way/1_seg_0'', road_name = ''Road'',
        update_status = blocked, updated_at = [], updated_by_email = []\<rparr>]
      [\<lparr>feature_properties = [(''highway'', ''residential''), (''@id'', ''way/1'')],
        geometry_coordinates = [(0, 0), (1, 0), (2, 0)]\<rparr>,
       \<lparr>feature_properties = [(''highway'', ''primary'')],
        geometry_coordinates = [(1, -1), (1, 0), (1, 1)]\<rparr>,
       \<lparr>feature_properties = [(''highway'', ''service''), (''id'', ''c'')],
        geometry_coordinates = [(1, 0)]\<rparr>]) = 7 \<and>
   map (\<lambda>p. (seg_id (fst p), coordinates (fst p)))
     (fst (initializeSegments 7 [''way/1_seg_0'' \<mapsto> \<lparr>update_id = ''u1'', segment_id = ''way/1_seg_0'', road_name = ''Road'',
        update_status = blocked, updated_at = [], updated_by_email = []\<rparr>]
      [\<lparr>feature_properties = [(''highway'', ''residential''), (''@id'', ''way/1'')],
        geometry_coordinates = [(0, 0), (1, 0), (2, 0)]\<rparr>,
       \<lparr>feature_properties = [(''highway'', ''primary'')],
        geometry_coordinates = [(1, -1), (1, 0), (1, 1)]\<rparr>,
       \<lparr>feature_properties = [(''highway'', ''service''), (''id'', ''c'')],
        geometry_coordinates = [(1, 0)]\<rparr>])) =
     [(''way/1_seg_0'', [(0, 0), (0, 1)]), (''way/1_seg_1'', [(0, 1), (0, 2)]),
      (''seg_145838158'', [(-1, 1), (0, 1)]), (''seg_2090498597'', [(0, 1), (1, 1)])]"
proof -
  let ?fs = "[\<lparr>feature_properties = [(''highway'', ''residential''), (''@id'', ''way/1'')],
        geometry_coordinates = [(0, 0), (1, 0), (2, 0)]\<rparr>,
       \<lparr>feature_properties = [(''highway'', ''primary'')],
        geometry_coordinates = [(1, -1), (1, 0), (1, 1)]\<rparr>,
       \<lparr>feature_properties = [(''highway'', ''service''), (''id'', ''c'')],
        geometry_coordinates = [(1, 0)]\<rparr>]"
  let ?db = "[''way/1_seg_0'' \<mapsto> \<lparr>update_id = ''u1'', segment_id = ''way/1_seg_0'', road_name = ''Road'',
        update_status = blocked, updated_at = [], updated_by_email = []\<rparr>]"
  note t = assembly_ids_deterministic [where counter = 7 and latestStatusMap = ?db
      and features = ?fs and counter' = 0 and latestStatusMap' = Map.empty]
  have 1: "snd (initializeSegments 7 ?db ?fs) = 7" using t by blast
  have "map (\<lambda>p. (seg_id (fst p), coordinates (fst p))) (fst (initializeSegments 7 ?db ?fs)) =
      map (\<lambda>p. (seg_id (fst p), coordinates (fst p))) (fst (initializeSegments 0 Map.empty ?fs))"
    using t by blast
  also have "\<dots> = [(''way/1_seg_0'', [(0, 0), (0, 1)]), (''way/1_seg_1'', [(0, 1), (0, 2)]),
      (''seg_145838158'', [(-1, 1), (0, 1)]), (''seg_2090498597'', [(0, 1), (1, 1)])]"
    unfolding initializeSegments_crossing by simp
  finally show ?thesis using 1 by blast
qed

section \<open>Claims about the pathfinding interface\<close>






text \<open>
  Claim C9: a feed update for a segment that is delivered within 2000 ms of a local edit of
  that segment is dropped, the edit itself is applied at once, and the flag expires after
  the window. The handler does set the status and the flag at once, and the effect keeps a
  flagged segment as it is. But the timeout that deletes the flag is set by each run of the
  effect that meets the flag, not by the edit, and it is never cleared, so the timeout set
  for an earlier edit deletes the flag of a later one. Segment X is edited at 0 ms and again
  at 1900 ms, which leaves it restricted; the timeout of the first edit fires at 2000 ms; the
  feed update delivered at 2100 ms, 200 ms after the second edit, is applied, and the
  segment loses the status the user gave it. The same update delivered at 1950 ms is dropped.
\<close>

theorem local_edit_reverted_within_window:
  "map status (roadSegments_st (deliverAll
      \<lparr>roadSegments_st = [\<lparr>seg_id = ''X'', coordinates = [(0, 0), (0, 1)], properties = [],
          status = passable\<rparr>],
       roadStatusUpdates_st = [\<lparr>update_id = ''1'', segment_id = ''X'', road_name = ''Road'',
          update_status = passable, updated_at = [], updated_by_email = []\<rparr>],
       locallyUpdatedSegments = {}, timeouts = []\<rparr>
      [(0, LocalEdit ''X'' blocked), (1900, LocalEdit ''X'' restricted)])) = [restricted] \<and>
   map status (roadSegments_st (deliverAll
      \<lparr>roadSegments_st = [\<lparr>seg_id = ''X'', coordinates = [(0, 0), (0, 1)], properties = [],
          status = passable\<rparr>],
       roadStatusUpdates_st = [\<lparr>update_id = ''1'', segment_id = ''X'', road_name = ''Road'',
          update_status = passable, updated_at = [], updated_by_email = []\<rparr>],
       locallyUpdatedSegments = {}, timeouts = []\<rparr>
      [(0, LocalEdit ''X'' blocked), (1900, LocalEdit ''X'' restricted),
       (2100, FeedUpdate [\<lparr>update_id = ''2'', segment_id = ''X'', road_name = ''Road'',
          update_status = blocked, updated_at = [], updated_by_email = []\<rparr>])])) = [blocked] \<and>
   map status (roadSegments_st (deliverAll
      \<lparr>roadSegments_st = [\<lparr>seg_id = ''X'', coordinates = [(0, 0), (0, 1)], properties = [],
          status = passable\<rparr>],
       roadStatusUpdates_st = [\<lparr>update_id = ''1'', segment_id = ''X'', road_name = ''Road'',
          update_status = passable, updated_at = [], updated_by_email = []\<rparr>],
       locallyUpdatedSegments = {}, timeouts = []\<rparr>
      [(0, LocalEdit ''X'' blocked), (1900, LocalEdit ''X'' restricted),
       (1950, FeedUpdate [\<lparr>update_id = ''2'', segment_id = ''X'', road_name = ''Road'',
          update_status = blocked, updated_at = [], updated_by_email = []\<rparr>])])) = [restricted]"
  by (simp add: reconciler_eval)



end
